theory Spec2Isabelle
  imports Main "HOL-Library.AList"
begin

section \<open>Python values, errors and string operations\<close>

text \<open>
  The exceptions the embedded functions can raise. A function that may raise returns
  \<open>py_error + 'a\<close>, with \<open>Inl\<close> for the exception.
\<close>

datatype py_error =
  ValueError | FileNotFoundError | IndexError | UnboundLocalError | KeyError
  | TypeError | AttributeError | OtherError

text \<open>
  Strings are lists of characters, each character being one code point below 256.
  \<open>is_space\<close> is Python's \<open>str.isspace\<close> on these code points: the characters
  \<open>str.strip()\<close> removes and \<open>str.split()\<close> separates at.
\<close>

definition is_space :: "char \<Rightarrow> bool" where
  "is_space c = (c \<in> set [CHR 0x09, CHR 0x0A, CHR 0x0B, CHR 0x0C, CHR 0x0D,
                            CHR 0x1C, CHR 0x1D, CHR 0x1E, CHR 0x1F, CHR '' '',
                            CHR 0x85, CHR 0xA0])"

definition lstrip :: "string \<Rightarrow> string" where
  "lstrip s = dropWhile is_space s"

definition rstrip :: "string \<Rightarrow> string" where
  "rstrip s = rev (dropWhile is_space (rev s))"

text \<open>\<open>s.strip()\<close>\<close>

definition strip :: "string \<Rightarrow> string" where
  "strip s = rstrip (lstrip s)"

text \<open>
  The text after the first colon of a line, with surrounding whitespace removed; the
  empty string when the line has no colon.
\<close>

definition after_first_colon :: "string \<Rightarrow> string" where
  "after_first_colon line = strip (drop 1 (dropWhile (\<lambda>c. c \<noteq> CHR '':'') line))"

text \<open>\<open>s.startswith(p)\<close>\<close>

definition startswith :: "string \<Rightarrow> string \<Rightarrow> bool" where
  "startswith s p = (take (length p) s = p)"

text \<open>\<open>p in s\<close> for strings: \<open>p\<close> occurs in \<open>s\<close> as a contiguous substring.\<close>

fun contains :: "string \<Rightarrow> string \<Rightarrow> bool" where
  "contains [] p = (p = [])"
| "contains (c # cs) p = (startswith (c # cs) p \<or> contains cs p)"

text \<open>
  \<open>s.split()\<close> without arguments: the maximal runs of non-whitespace characters, in
  order. The accumulator holds the current run, reversed.
\<close>

fun split_ws_acc :: "string \<Rightarrow> string \<Rightarrow> string list" where
  "split_ws_acc acc [] = (if acc = [] then [] else [rev acc])"
| "split_ws_acc acc (c # cs) =
     (if is_space c
      then (if acc = [] then split_ws_acc [] cs else rev acc # split_ws_acc [] cs)
      else split_ws_acc (c # acc) cs)"

definition split_ws :: "string \<Rightarrow> string list" where
  "split_ws s = split_ws_acc [] s"

text \<open>
  \<open>s.split(sep)\<close> for a non-empty separator: the pieces between the non-overlapping
  occurrences of \<open>sep\<close>, scanned from the left; always at least one piece. \<open>k\<close> counts
  the characters of a separator that are still to be skipped, \<open>acc\<close> is the current
  piece, reversed.
\<close>

fun split_str_aux :: "string \<Rightarrow> nat \<Rightarrow> string \<Rightarrow> string \<Rightarrow> string list" where
  "split_str_aux sep k acc [] = [rev acc]"
| "split_str_aux sep k acc (c # cs) =
     (if 0 < k then split_str_aux sep (k - 1) acc cs
      else if startswith (c # cs) sep then rev acc # split_str_aux sep (length sep - 1) [] cs
      else split_str_aux sep 0 (c # acc) cs)"

definition split_str :: "string \<Rightarrow> string \<Rightarrow> string list" where
  "split_str s sep = split_str_aux sep 0 [] s"

text \<open>
  \<open>s.rsplit(maxsplit=1)\<close>: split once at the last run of whitespace. The result is
  empty for a string of whitespace only, the single token for a string with one token,
  and otherwise the text before the last token (trailing whitespace removed, leading
  whitespace kept) followed by the last token.
\<close>

definition rsplit1 :: "string \<Rightarrow> string list" where
  "rsplit1 s =
     (let r = dropWhile is_space (rev s);
          tok = rev (takeWhile (\<lambda>c. \<not> is_space c) r);
          rest = rev (dropWhile is_space (dropWhile (\<lambda>c. \<not> is_space c) r))
      in if r = [] then [] else if rest = [] then [tok] else [rest, tok])"

text \<open>\<open>sep.join(xs)\<close>\<close>

fun join :: "string \<Rightarrow> string list \<Rightarrow> string" where
  "join sep [] = []"
| "join sep [x] = x"
| "join sep (x # y # ys) = x @ sep @ join sep (y # ys)"

text \<open>
  \<open>xs[i]\<close> for a non-negative index: \<open>IndexError\<close> out of range.
\<close>

definition getitem :: "'a list \<Rightarrow> nat \<Rightarrow> py_error + 'a" where
  "getitem xs i = (if i < length xs then Inr (xs ! i) else Inl IndexError)"

text \<open>
  A \<open>for\<close> loop whose body may raise: the state is threaded through the elements in
  order and the first exception ends the loop.
\<close>

fun foldE :: "('a \<Rightarrow> 's \<Rightarrow> 'e + 's) \<Rightarrow> 'a list \<Rightarrow> 's \<Rightarrow> 'e + 's" where
  "foldE f [] s = Inr s"
| "foldE f (x # xs) s = (case f x s of Inl e \<Rightarrow> Inl e | Inr s' \<Rightarrow> foldE f xs s')"

section \<open>\<open>utils.validate_file_path\<close>\<close>

text \<open>
  The argument is any Python object: a string, or an object of another type, of which
  only its truth value matters here. The file system enters through \<open>isfile\<close>, the
  result of \<open>os.path.isfile\<close> on a path.
\<close>

datatype py_value = PyStr string | PyOther bool

definition truthy :: "py_value \<Rightarrow> bool" where
  "truthy v = (case v of PyStr s \<Rightarrow> s \<noteq> [] | PyOther t \<Rightarrow> t)"

definition isinstance_str :: "py_value \<Rightarrow> bool" where
  "isinstance_str v = (case v of PyStr s \<Rightarrow> True | PyOther t \<Rightarrow> False)"

definition validate_file_path :: "(string \<Rightarrow> bool) \<Rightarrow> py_value \<Rightarrow> py_error + py_value" where
  "validate_file_path isfile file_path =
     (if \<not> truthy file_path \<or> \<not> isinstance_str file_path then Inl ValueError
      else case file_path of
             PyStr p \<Rightarrow> if \<not> isfile p then Inl FileNotFoundError else Inr file_path
           | PyOther t \<Rightarrow> Inl TypeError)"

section \<open>\<open>utils.wht_filedata_to_dataframe\<close>\<close>

text \<open>
  The file is the list of its lines as \<open>readlines()\<close> returns them, each with its line
  end. The returned DataFrame is its list of column names and its rows of string cells.
\<close>

record wht_frame =
  columns :: "string list"
  rows :: "string list list"

definition is_data_line :: "string \<Rightarrow> bool" where
  "is_data_line line =
     (strip line \<noteq> [] \<and>
      \<not> (startswith line ''*'' \<or> startswith line ''!'' \<or> startswith line ''@''))"

fun parse_data_lines :: "string list \<Rightarrow> string list \<Rightarrow> py_error + string list list" where
  "parse_data_lines cols [] = Inr []"
| "parse_data_lines cols (line # rest) =
     (let vals = split_ws line
      in if length vals = length cols
         then (case parse_data_lines cols rest of
                 Inl e \<Rightarrow> Inl e
               | Inr data \<Rightarrow> Inr (vals # data))
         else Inl ValueError)"

definition wht_filedata_to_dataframe :: "string list \<Rightarrow> py_error + wht_frame" where
  "wht_filedata_to_dataframe lines =
     (case find (\<lambda>line. startswith line ''@'') lines of
        None \<Rightarrow> Inl ValueError
      | Some line \<Rightarrow>
          (let header_line = strip line;
               cols = split_ws (drop 1 header_line);
               data_lines = map strip (filter is_data_line lines)
           in case parse_data_lines cols data_lines of
                Inl e \<Rightarrow> Inl e
              | Inr data \<Rightarrow> Inr \<lparr>columns = cols, rows = data\<rparr>))"

text \<open>
  The header columns as the claim describes them: the tokens of the first line that
  starts with \<open>@\<close>, without the leading \<open>@\<close>.
\<close>

definition header_columns :: "string list \<Rightarrow> string list" where
  "header_columns lines =
     split_ws (drop 1 (strip (hd (filter (\<lambda>line. startswith line ''@'') lines))))"

section \<open>\<open>utils.simulations_lines\<close>\<close>

text \<open>
  The file is the list \<open>lines\<close> that \<open>readlines()\<close> returns. The result dictionary keeps
  insertion order, and assigning to a key that is present replaces its value in place:
  an association list under \<open>AList.update\<close>. Line indices are natural numbers; the
  subtraction \<open>dssat_lines[i + 1] - 1\<close> is exact because the entry after the first is
  positive.
\<close>

type_synonym treatment_dict = "(string \<times> nat \<times> nat) list"

text \<open>
  The first loop collects \<open>dssat_lines\<close>, the indices of the lines that contain
  \<open>*DSSAT\<close>, and \<open>run_lines\<close>, the indices and stripped texts of the lines that start
  with \<open>TREATMENT\<close> once stripped.
\<close>

definition dssat_lines :: "string list \<Rightarrow> nat list" where
  "dssat_lines lines =
     map fst (filter (\<lambda>(i, line). contains line ''*DSSAT'') (enumerate 0 lines))"

definition run_lines :: "string list \<Rightarrow> (nat \<times> string) list" where
  "run_lines lines =
     map (\<lambda>(i, line). (i, strip line))
       (filter (\<lambda>(i, line). startswith (strip line) ''TREATMENT'') (enumerate 0 lines))"

text \<open>\<open>run_line.split(':')[1].strip().rsplit(maxsplit=1)[0]\<close>\<close>

definition treatment_name :: "string \<Rightarrow> py_error + string" where
  "treatment_name run_line =
     (case getitem (split_str run_line '':'') 1 of
        Inl e \<Rightarrow> Inl e
      | Inr p \<Rightarrow> getitem (rsplit1 (strip p)) 0)"

text \<open>
  The second loop visits the \<open>*DSSAT\<close> indices in order. \<open>end_line\<close> is one less than the
  next \<open>*DSSAT\<close> index, or \<open>len(lines)\<close> for the last one (\<open>n\<close> below). The first
  entry of \<open>run_lines\<close> whose index lies in \<open>[start_line, end_line]\<close> gives \<open>run_info\<close>;
  without one, \<open>run_info\<close> stays \<open>None\<close> and nothing is stored.
\<close>

fun sections_loop ::
  "nat \<Rightarrow> (nat \<times> string) list \<Rightarrow> nat list \<Rightarrow> treatment_dict \<Rightarrow> py_error + treatment_dict" where
  "sections_loop n rls [] result_dict = Inr result_dict"
| "sections_loop n rls (start_line # rest) result_dict =
     (let end_line = (case rest of [] \<Rightarrow> n | next_start # _ \<Rightarrow> next_start - 1)
      in case find (\<lambda>(run_start, run_line). start_line \<le> run_start \<and> run_start \<le> end_line) rls of
           None \<Rightarrow> sections_loop n rls rest result_dict
         | Some (run_start, run_line) \<Rightarrow>
             (case treatment_name run_line of
                Inl e \<Rightarrow> Inl e
              | Inr run_info \<Rightarrow>
                  sections_loop n rls rest
                    (if run_info \<noteq> [] then AList.update run_info (start_line, end_line) result_dict
                     else result_dict)))"

definition simulations_lines :: "string list \<Rightarrow> py_error + treatment_dict" where
  "simulations_lines lines =
     sections_loop (length lines) (run_lines lines) (dssat_lines lines) []"

text \<open>
  The vocabulary of the claim: the line at index \<open>i\<close> contains \<open>*DSSAT\<close>; it is a
  \<open>TREATMENT\<close> line; the end of the block that starts at \<open>s\<close>; the first \<open>TREATMENT\<close>
  line of that block. \<open>named_block\<close> says that the code takes the name \<open>name\<close> from
  that line.
\<close>

definition is_dssat :: "string list \<Rightarrow> nat \<Rightarrow> bool" where
  "is_dssat lines i = contains (lines ! i) ''*DSSAT''"

definition is_treatment :: "string list \<Rightarrow> nat \<Rightarrow> bool" where
  "is_treatment lines i = startswith (strip (lines ! i)) ''TREATMENT''"

definition block_end :: "string list \<Rightarrow> nat \<Rightarrow> nat" where
  "block_end lines s =
     (case find (\<lambda>j. s < j \<and> is_dssat lines j) [0..<length lines] of
        None \<Rightarrow> length lines
      | Some nx \<Rightarrow> nx - 1)"

definition block_treatment :: "string list \<Rightarrow> nat \<Rightarrow> nat option" where
  "block_treatment lines s =
     find (\<lambda>r. is_treatment lines r \<and> s \<le> r \<and> r \<le> block_end lines s) [0..<length lines]"

definition named_block :: "string list \<Rightarrow> nat \<Rightarrow> string \<Rightarrow> bool" where
  "named_block lines s name =
     (case block_treatment lines s of
        None \<Rightarrow> False
      | Some r \<Rightarrow> treatment_name (strip (lines ! r)) = Inr name)"

text \<open>
  The treatment name as the claim describes it, without \<open>split\<close> and \<open>rsplit\<close>: the
  text of a line after its colon, with the trailing token (the last run of non-blank
  characters, and the blanks before it) removed. A \<open>TREATMENT\<close> line has the expected
  shape when it has exactly one colon and the text after it is a name followed by one
  more token, so that removing the trailing token leaves a non-empty name.
\<close>

definition colon_count :: "string \<Rightarrow> nat" where
  "colon_count line = length (filter (\<lambda>c. c = CHR '':'') line)"

definition without_last_token :: "string \<Rightarrow> string" where
  "without_last_token t = rstrip (rev (dropWhile (\<lambda>c. \<not> is_space c) (rev t)))"

definition name_after_colon :: "string \<Rightarrow> string" where
  "name_after_colon line = without_last_token (after_first_colon line)"

definition treatment_line_ok :: "string \<Rightarrow> bool" where
  "treatment_line_ok line \<longleftrightarrow> colon_count line = 1 \<and> name_after_colon line \<noteq> []"

text \<open>The name of the block that starts at \<open>s\<close>, read off its first \<open>TREATMENT\<close> line.\<close>

definition block_name :: "string list \<Rightarrow> nat \<Rightarrow> string option" where
  "block_name lines s =
     (case block_treatment lines s of
        None \<Rightarrow> None
      | Some r \<Rightarrow> Some (name_after_colon (lines ! r)))"

text \<open>One iteration of the second loop, in terms of that vocabulary.\<close>

definition add_block :: "string list \<Rightarrow> nat \<Rightarrow> treatment_dict \<Rightarrow> py_error + treatment_dict" where
  "add_block lines s d =
     (case block_treatment lines s of
        None \<Rightarrow> Inr d
      | Some r \<Rightarrow>
          (case treatment_name (strip (lines ! r)) of
             Inl e \<Rightarrow> Inl e
           | Inr name \<Rightarrow> Inr (AList.update name (s, block_end lines s) d)))"

text \<open>A small file with three blocks, the second without a \<open>TREATMENT\<close> line.\<close>

definition overview_example :: "string list" where
  "overview_example =
     [''*DSSAT Cropping System Model\<newline>'',
      '' TREATMENT  1     : WW-23_YR      WHCER048\<newline>'',
      ''\<newline>'',
      ''*DSSAT Cropping System Model\<newline>'',
      '' MODEL          : WHCER048 - Wheat\<newline>'',
      ''*DSSAT Cropping System Model\<newline>'',
      '' TREATMENT  3     : DR-23_YR      WHCER048\<newline>'']"

section \<open>\<open>utils.extract_simulation_data\<close>\<close>

text \<open>
  One record of the table. The fields carry the lower-case column names of the returned
  frame. While the file is scanned both value columns hold the tokens as strings; the
  returned frame holds what \<open>pd.to_numeric(..., errors='coerce')\<close> makes of them, with
  \<open>None\<close> for \<open>NaN\<close>. The column \<open>experiment\<close> (\<open>experiment_col\<close>) holds \<open>None\<close> when no \<open>EXPERIMENT\<close> line has
  been seen.
\<close>

record 'v row =
  treatment :: string
  cultivar :: string
  variable :: string
  value_simulated :: 'v
  value_measured :: 'v
  experiment_col :: "string option"
  position :: nat

text \<open>\<open>line.split(':')[1].strip()\<close> on an \<open>EXPERIMENT\<close> line.\<close>

definition experiment_description :: "string \<Rightarrow> py_error + string" where
  "experiment_description line =
     (case getitem (split_str line '':'') 1 of
        Inl e \<Rightarrow> Inl e
      | Inr p \<Rightarrow> Inr (strip p))"

text \<open>
  The \<open>CROP\<close> branch: on a stripped line that starts with \<open>CROP\<close> and contains
  \<open>CULTIVAR :\<close>, \<open>parts[1].split('ECOTYPE')[0].strip()\<close> when \<open>len(parts) > 1\<close>.
\<close>

definition is_crop_line :: "string \<Rightarrow> bool" where
  "is_crop_line line = (startswith line ''CROP'' \<and> contains line ''CULTIVAR :'')"

definition cultivar_of :: "string \<Rightarrow> string option" where
  "cultivar_of line =
     (let parts = split_str line ''CULTIVAR :''
      in if 1 < length parts
         then (case split_str (parts ! 1) ''ECOTYPE'' of
                 [] \<Rightarrow> Some []
               | p # _ \<Rightarrow> Some (strip p))
         else None)"

text \<open>A value token that starts with \<open>-99\<close> is replaced by the empty string.\<close>

definition blank_sentinel :: "string \<Rightarrow> string" where
  "blank_sentinel v = (if startswith v ''-99'' then [] else v)"

text \<open>
  The dictionary appended for one data line with tokens \<open>toks\<close> (at least two):
  \<open>' '.join(toks[:-2])\<close>, \<open>toks[-2]\<close> and \<open>toks[-1]\<close>.
\<close>

definition mk_row ::
  "string \<Rightarrow> string \<Rightarrow> string option \<Rightarrow> nat \<Rightarrow> string list \<Rightarrow> string row" where
  "mk_row tr cv ex line_number toks =
     \<lparr>treatment = tr, cultivar = cv,
      variable = join '' '' (take (length toks - 2) toks),
      value_simulated = blank_sentinel (toks ! (length toks - 2)),
      value_measured = blank_sentinel (toks ! (length toks - 1)),
      experiment_col = ex, position = line_number\<rparr>"

text \<open>
  The inner loop over \<open>lines[i + 1:]\<close>. \<open>line_number\<close> is the counter before its
  increment. The loop stops at the first blank line or line that starts with \<open>*\<close>, or at
  the end of the file. A data line with fewer than two tokens raises \<open>IndexError\<close> at
  \<open>data_line[-2]\<close>; reading the local variable \<open>cultivar\<close> before any \<open>CROP\<close> line has
  assigned it (\<open>cv = None\<close>) raises \<open>UnboundLocalError\<close>.
\<close>

fun data_rows ::
  "string \<Rightarrow> string option \<Rightarrow> string option \<Rightarrow> nat \<Rightarrow> string list
   \<Rightarrow> py_error + string row list" where
  "data_rows tr cv ex line_number [] = Inr []"
| "data_rows tr cv ex line_number (data_line # rest) =
     (if strip data_line = [] \<or> startswith data_line ''*'' then Inr []
      else let toks = split_ws (strip data_line)
           in if length toks < 2 then Inl IndexError
              else (case cv of
                      None \<Rightarrow> Inl UnboundLocalError
                    | Some c \<Rightarrow>
                        (case data_rows tr cv ex (Suc line_number) rest of
                           Inl e \<Rightarrow> Inl e
                         | Inr rs \<Rightarrow> Inr (mk_row tr c ex (Suc line_number) toks # rs))))"

text \<open>
  The local variables of the scan. \<open>experiment_info\<close> and \<open>cultivar_data\<close> are reset for
  every treatment; \<open>cultivar_var\<close> (the variable \<open>cultivar\<close>, \<open>None\<close> while unbound),
  \<open>header_line\<close> (\<open>None\<close> while unbound) and \<open>all_data\<close> live across treatments.
\<close>

record scan_state =
  experiment_info :: "string option"
  cultivar_var :: "string option"
  cultivar_data :: "string row list"
  all_data :: "string row list"
  header_line :: "string option"

text \<open>
  The body of \<open>for i in range(start_line, end_line)\<close>. At a line that starts with \<open>@\<close>
  the rows of the data lines that follow are appended to \<open>cultivar_data\<close>, and the whole
  of \<open>cultivar_data\<close> is concatenated to \<open>all_data\<close>.
\<close>

definition scan_line :: "string list \<Rightarrow> string \<Rightarrow> nat \<Rightarrow> scan_state \<Rightarrow> py_error + scan_state" where
  "scan_line lines tr i st =
     (case getitem lines i of
        Inl e \<Rightarrow> Inl e
      | Inr raw \<Rightarrow>
          (let line = strip raw
           in case (if startswith line ''EXPERIMENT''
                    then (case experiment_description line of
                            Inl e \<Rightarrow> Inl e
                          | Inr d \<Rightarrow> Inr (Some d))
                    else Inr (experiment_info st)) of
                Inl e \<Rightarrow> Inl e
              | Inr ex \<Rightarrow>
                  (let cv = (if is_crop_line line
                             then (case cultivar_of line of
                                     None \<Rightarrow> cultivar_var st
                                   | Some c \<Rightarrow> Some c)
                             else cultivar_var st)
                   in if startswith line ''@''
                      then (case data_rows tr cv ex 0 (drop (Suc i) lines) of
                              Inl e \<Rightarrow> Inl e
                            | Inr rs \<Rightarrow>
                                Inr (st\<lparr>experiment_info := ex, cultivar_var := cv,
                                        cultivar_data := cultivar_data st @ rs,
                                        all_data := all_data st @ (cultivar_data st @ rs),
                                        header_line := Some line\<rparr>))
                      else Inr (st\<lparr>experiment_info := ex, cultivar_var := cv\<rparr>))))"

text \<open>The body of \<open>for treatment, (start_line, end_line) in treatment_dict.items()\<close>.\<close>

definition scan_block ::
  "string list \<Rightarrow> string \<times> nat \<times> nat \<Rightarrow> scan_state \<Rightarrow> py_error + scan_state" where
  "scan_block lines entry st =
     (case entry of
        (tr, start_line, end_line) \<Rightarrow>
          foldE (scan_line lines tr) [start_line..<end_line]
            (st\<lparr>cultivar_data := [], experiment_info := None\<rparr>))"

definition initial_scan_state :: scan_state where
  "initial_scan_state =
     \<lparr>experiment_info = None, cultivar_var = None, cultivar_data = [], all_data = [],
      header_line = None\<rparr>"

text \<open>
  The filter on \<open>--------\<close> and the conversion of both value columns. \<open>to_numeric\<close> is
  \<open>pd.to_numeric(..., errors='coerce')\<close> on one cell: the number, or \<open>None\<close> for \<open>NaN\<close>.
\<close>

definition has_dashes :: "string row \<Rightarrow> bool" where
  "has_dashes r =
     (contains (variable r) ''--------'' \<or> contains (value_simulated r) ''--------''
      \<or> contains (value_measured r) ''--------'')"

definition numeric_row :: "(string \<Rightarrow> 'n option) \<Rightarrow> string row \<Rightarrow> 'n option row" where
  "numeric_row to_numeric r =
     \<lparr>treatment = treatment r, cultivar = cultivar r, variable = variable r,
      value_simulated = to_numeric (value_simulated r),
      value_measured = to_numeric (value_measured r),
      experiment_col = experiment_col r, position = position r\<rparr>"

text \<open>
  \<open>extract_simulation_data\<close> returns the frame and \<open>header_line\<close>; the \<open>return\<close> raises
  \<open>UnboundLocalError\<close> when no line starting with \<open>@\<close> was scanned.
\<close>

definition extract_simulation_data ::
  "(string \<Rightarrow> 'n option) \<Rightarrow> string list \<Rightarrow> py_error + ('n option row list \<times> string)" where
  "extract_simulation_data to_numeric lines =
     (case simulations_lines lines of
        Inl e \<Rightarrow> Inl e
      | Inr treatment_dict \<Rightarrow>
          (case foldE (scan_block lines) treatment_dict initial_scan_state of
             Inl e \<Rightarrow> Inl e
           | Inr st \<Rightarrow>
               (let kept = filter (\<lambda>r. \<not> has_dashes r) (all_data st)
                in case header_line st of
                     None \<Rightarrow> Inl UnboundLocalError
                   | Some h \<Rightarrow> Inr (map (numeric_row to_numeric) kept, h))))"

text \<open>
  The vocabulary of the claim, for a block that starts at line \<open>s\<close>: the last line among
  \<open>s, ..., n - 1\<close> that satisfies \<open>P\<close> once stripped, and the experiment description
  given by the last \<open>EXPERIMENT\<close> line among them.
\<close>

definition last_before :: "(string \<Rightarrow> bool) \<Rightarrow> string list \<Rightarrow> nat \<Rightarrow> nat \<Rightarrow> nat option" where
  "last_before P lines s n =
     (case filter (\<lambda>j. P (strip (lines ! j))) [s..<n] of
        [] \<Rightarrow> None
      | j # js \<Rightarrow> Some (last (j # js)))"

definition experiment_before :: "string list \<Rightarrow> nat \<Rightarrow> nat \<Rightarrow> string option" where
  "experiment_before lines s n =
     (case last_before (\<lambda>l. startswith l ''EXPERIMENT'') lines s n of
        None \<Rightarrow> None
      | Some j \<Rightarrow>
          (case experiment_description (strip (lines ! j)) of
             Inl e \<Rightarrow> None
           | Inr d \<Rightarrow> Some d))"

text \<open>
  Where a scanned row comes from: a dictionary entry \<open>(tr, (s, e))\<close>, a header line at
  \<open>i\<close> with \<open>s \<le> i < e\<close>, and the \<open>k\<close>-th line after the header, whose tokens fill the
  row.
\<close>

definition row_origin :: "string list \<Rightarrow> treatment_dict \<Rightarrow> string row \<Rightarrow> bool" where
  "row_origin lines d r \<longleftrightarrow>
     (\<exists>tr s e i k c.
        (tr, (s, e)) \<in> set d \<and> s \<le> i \<and> i < e \<and> i < length lines
        \<and> startswith (strip (lines ! i)) ''@''
        \<and> 0 < k \<and> i + k < length lines
        \<and> 2 \<le> length (split_ws (strip (lines ! (i + k))))
        \<and> r = mk_row tr c (experiment_before lines s (Suc i)) k
                  (split_ws (strip (lines ! (i + k))))
        \<and> (\<forall>j. last_before is_crop_line lines s (Suc i) = Some j
               \<longrightarrow> cultivar_of (strip (lines ! j)) = Some c))"

text \<open>
  One block of an \<open>OVERVIEW.OUT\<close> file whose experiment description contains a colon,
  and a stand-in for \<open>pd.to_numeric\<close> that keeps the text of a cell and maps the empty
  string to \<open>NaN\<close>.
\<close>

definition overview_block :: "string list" where
  "overview_block =
     [''*DSSAT Cropping System Model\<newline>'',
      '' EXPERIMENT     : KSAS8101 WH 10:30 TRIAL\<newline>'',
      '' TREATMENT  1   : WW-23_YR      WHCER048\<newline>'',
      '' CROP           : Wheat    CULTIVAR : Yecora Rojo   ECOTYPE :USWH01\<newline>'',
      ''@     VARIABLE        Simulated     Measured\<newline>'',
      ''      --------        ---------     --------\<newline>'',
      ''      Anthesis day (dap)     88       90\<newline>'',
      ''      Yield (kg/ha)        5100      -99\<newline>'',
      ''\<newline>'']"

definition text_or_nan :: "string \<Rightarrow> string option" where
  "text_or_nan s = (if s = [] then None else Some s)"

text \<open>The frame that \<open>extract_simulation_data\<close> returns for \<open>overview_block\<close>.\<close>

definition overview_block_rows :: "string option row list" where
  "overview_block_rows =
     [\<lparr>treatment = ''WW-23_YR'', cultivar = ''Yecora Rojo'',
       variable = ''Anthesis day (dap)'', value_simulated = Some ''88'',
       value_measured = Some ''90'',
       experiment_col = Some ''KSAS8101 WH 10'', position = 2\<rparr>,
      \<lparr>treatment = ''WW-23_YR'', cultivar = ''Yecora Rojo'',
       variable = ''Yield (kg/ha)'', value_simulated = Some ''5100'',
       value_measured = None, experiment_col = Some ''KSAS8101 WH 10'',
       position = 3\<rparr>]"

text \<open>
  A file with two blocks, the second without a \<open>CROP\<close> line, and the frame that
  \<open>extract_simulation_data\<close> returns for it.
\<close>

definition overview_two_blocks :: "string list" where
  "overview_two_blocks =
     [''*DSSAT Cropping System Model\<newline>'',
      '' EXPERIMENT     : KSAS8101 WH\<newline>'',
      '' TREATMENT  1   : WW-23_YR      WHCER048\<newline>'',
      '' CROP           : Wheat    CULTIVAR : Yecora Rojo   ECOTYPE :USWH01\<newline>'',
      ''@     VARIABLE        Simulated     Measured\<newline>'',
      ''      Yield (kg/ha)        5100      4900\<newline>'',
      ''\<newline>'',
      ''*DSSAT Cropping System Model\<newline>'',
      '' EXPERIMENT     : KSAS8101 WH\<newline>'',
      '' TREATMENT  2   : DR-23_YR      WHCER048\<newline>'',
      ''@     VARIABLE        Simulated     Measured\<newline>'',
      ''      Yield (kg/ha)        3100      3000\<newline>'',
      ''\<newline>'']"

definition overview_two_blocks_rows :: "string option row list" where
  "overview_two_blocks_rows =
     [\<lparr>treatment = ''WW-23_YR'', cultivar = ''Yecora Rojo'',
       variable = ''Yield (kg/ha)'', value_simulated = Some ''5100'',
       value_measured = Some ''4900'',
       experiment_col = Some ''KSAS8101 WH'', position = 1\<rparr>,
      \<lparr>treatment = ''DR-23_YR'', cultivar = ''Yecora Rojo'',
       variable = ''Yield (kg/ha)'', value_simulated = Some ''3100'',
       value_measured = Some ''3000'',
       experiment_col = Some ''KSAS8101 WH'', position = 1\<rparr>]"

section \<open>\<open>utils.load_and_process_overview\<close>\<close>

text \<open>\<open>os.path.join\<close> on POSIX paths, for two and for three components.\<close>

definition path_join2 :: "string \<Rightarrow> string \<Rightarrow> string" where
  "path_join2 a b =
     (if startswith b ''/'' then b
      else if a = [] \<or> last a = CHR ''/'' then a @ b
      else a @ ''/'' @ b)"

definition path_join3 :: "string \<Rightarrow> string \<Rightarrow> string \<Rightarrow> string" where
  "path_join3 a b c = path_join2 (path_join2 a b) c"

text \<open>
  What \<open>yaml.safe_load\<close> returns: \<open>None\<close>, a string, a list, a dictionary (its items in
  order, with distinct keys), or another scalar (a number, a boolean, a date), of which
  only the truth value matters here. Loading raises \<open>YAMLError\<close> on a malformed file.
\<close>

datatype yaml = YNull | YStr string | YSeq "yaml list" | YMap "(yaml \<times> yaml) list" | YScalar bool

datatype yaml_load = YAMLError | Loaded yaml

text \<open>\<open>config_file.get(field, [])\<close>; \<open>None\<close> stands for the default \<open>[]\<close>.\<close>

definition dict_get :: "yaml \<Rightarrow> string \<Rightarrow> py_error + yaml option" where
  "dict_get config field =
     (case config of
        YMap kvs \<Rightarrow> Inr (map_of kvs (YStr field))
      | _ \<Rightarrow> Inl AttributeError)"

fun yaml_truthy :: "yaml \<Rightarrow> bool" where
  "yaml_truthy YNull = False"
| "yaml_truthy (YStr s) = (s \<noteq> [])"
| "yaml_truthy (YSeq xs) = (xs \<noteq> [])"
| "yaml_truthy (YMap kvs) = (kvs \<noteq> [])"
| "yaml_truthy (YScalar t) = t"

text \<open>
  \<open>', '.join(value)\<close> iterates over \<open>value\<close>: the characters of a string, the items of a
  list, the keys of a dictionary; another value is not iterable. Every item must be a
  string.
\<close>

fun iter_items :: "yaml \<Rightarrow> py_error + yaml list" where
  "iter_items (YStr s) = Inr (map (\<lambda>c. YStr [c]) s)"
| "iter_items (YSeq xs) = Inr xs"
| "iter_items (YMap kvs) = Inr (map fst kvs)"
| "iter_items YNull = Inl TypeError"
| "iter_items (YScalar t) = Inl TypeError"

fun str_items :: "yaml list \<Rightarrow> py_error + string list" where
  "str_items [] = Inr []"
| "str_items (YStr s # ys) = (case str_items ys of Inl e \<Rightarrow> Inl e | Inr ss \<Rightarrow> Inr (s # ss))"
| "str_items (y # ys) = Inl TypeError"

text \<open>\<open>', '.join(value) if value else ''\<close>\<close>

definition field_text :: "yaml option \<Rightarrow> py_error + string" where
  "field_text v =
     (case v of
        None \<Rightarrow> Inr []
      | Some y \<Rightarrow>
          if yaml_truthy y
          then (case iter_items y of
                  Inl e \<Rightarrow> Inl e
                | Inr xs \<Rightarrow>
                    (case str_items xs of
                       Inl e \<Rightarrow> Inl e
                     | Inr ss \<Rightarrow> Inr (join '', '' ss)))
          else Inr [])"

definition config_field :: "yaml \<Rightarrow> string \<Rightarrow> py_error + string" where
  "config_field config field =
     (case dict_get config field of
        Inl e \<Rightarrow> Inl e
      | Inr v \<Rightarrow> field_text v)"

text \<open>
  A record of \<open>overview_df\<close> after the calibration code and the five configuration
  columns have been added, and a record of the returned frame: its column
  \<open>treatment_cultivar\<close> is the field \<open>treatment\<close>, its column \<open>treatment\<close> is
  \<open>treatment_label\<close> and its column \<open>variable\<close> is \<open>variable_label\<close>, both \<open>None\<close> where
  the mapping has no entry.
\<close>

record 'v tagged_row = "'v row" +
  calibration_code :: string
  plantgro_variables :: string
  overview_variables :: string
  calibration_method :: string
  short_label :: string
  long_label :: string

record 'v overview_row = "'v tagged_row" +
  treatment_label :: "string option"
  variable_label :: "string option"

definition tag_row ::
  "string \<Rightarrow> string \<Rightarrow> string \<Rightarrow> string \<Rightarrow> string \<Rightarrow> string \<Rightarrow> 'v row \<Rightarrow> 'v tagged_row" where
  "tag_row code pv ov cm sl ll r =
     \<lparr>treatment = treatment r, cultivar = cultivar r, variable = variable r,
      value_simulated = value_simulated r, value_measured = value_measured r,
      experiment_col = experiment_col r, position = position r,
      calibration_code = code, plantgro_variables = pv, overview_variables = ov,
      calibration_method = cm, short_label = sl, long_label = ll\<rparr>"

definition relabel ::
  "(string \<rightharpoonup> string) \<Rightarrow> (string \<rightharpoonup> string) \<Rightarrow> 'v tagged_row \<Rightarrow> 'v overview_row" where
  "relabel treatments_dic variable_name_mapping r =
     \<lparr>treatment = treatment r, cultivar = cultivar r, variable = variable r,
      value_simulated = value_simulated r, value_measured = value_measured r,
      experiment_col = experiment_col r, position = position r,
      calibration_code = calibration_code r, plantgro_variables = plantgro_variables r,
      overview_variables = overview_variables r,
      calibration_method = calibration_method r, short_label = short_label r,
      long_label = long_label r,
      treatment_label = treatments_dic (take 4 (treatment r)),
      variable_label = variable_name_mapping (variable r)\<rparr>"

text \<open>
  The variables that live across the iterations of the loop over
  \<open>calibration_code_list\<close>: \<open>config_file\<close> (\<open>None\<close> while unbound) and the list of frames.
\<close>

record 'v load_state =
  config_file :: "yaml option"
  list_overview_df :: "'v tagged_row list list"

text \<open>
  One iteration, for the calibration code \<open>code\<close>. The file system is two partial maps from paths: the lines of the text
  files and the result of loading the YAML files. When loading raises \<open>YAMLError\<close> the
  handler prints the error and \<open>config_file\<close> keeps its previous binding.
\<close>

definition load_one ::
  "(string \<Rightarrow> 'n option) \<Rightarrow> string \<Rightarrow> (string \<rightharpoonup> string list) \<Rightarrow> (string \<rightharpoonup> yaml_load)
   \<Rightarrow> string \<Rightarrow> 'n option load_state \<Rightarrow> py_error + 'n option load_state" where
  "load_one to_numeric base_data_dir text_files yaml_files code st =
     (let out_file_path = path_join3 base_data_dir code ''OVERVIEW.OUT''
      in case validate_file_path (\<lambda>p. text_files p \<noteq> None) (PyStr out_file_path) of
           Inl e \<Rightarrow> Inl e
         | Inr validated_path \<Rightarrow>
       (case text_files out_file_path of
          None \<Rightarrow> Inl FileNotFoundError
        | Some lines \<Rightarrow>
       (case extract_simulation_data to_numeric lines of
          Inl e \<Rightarrow> Inl e
        | Inr (overview_df_raw, header) \<Rightarrow>
       (let overview_df = filter (\<lambda>r. value_measured r \<noteq> None) overview_df_raw;
            yaml_file_path = path_join3 base_data_dir code ''config.yaml''
        in case yaml_files yaml_file_path of
             None \<Rightarrow> Inl FileNotFoundError
           | Some loaded \<Rightarrow>
       (case (case loaded of YAMLError \<Rightarrow> config_file st | Loaded y \<Rightarrow> Some y) of
          None \<Rightarrow> Inl UnboundLocalError
        | Some config \<Rightarrow>
       (case config_field config ''plantgro_variables'' of Inl e \<Rightarrow> Inl e | Inr pv \<Rightarrow>
       (case config_field config ''overview_variables'' of Inl e \<Rightarrow> Inl e | Inr ov \<Rightarrow>
       (case config_field config ''calibration_method'' of Inl e \<Rightarrow> Inl e | Inr cm \<Rightarrow>
       (case config_field config ''short_label'' of Inl e \<Rightarrow> Inl e | Inr sl \<Rightarrow>
       (case config_field config ''long_label'' of Inl e \<Rightarrow> Inl e | Inr ll \<Rightarrow>
          Inr \<lparr>config_file = Some config,
               list_overview_df = list_overview_df st
                 @ [map (tag_row code pv ov cm sl ll) overview_df]\<rparr>))))))))))"

text \<open>\<open>pd.concat\<close> raises \<open>ValueError\<close> on an empty list of frames.\<close>

definition load_and_process_overview ::
  "(string \<Rightarrow> 'n option) \<Rightarrow> string list \<Rightarrow> string \<Rightarrow> (string \<rightharpoonup> string list)
   \<Rightarrow> (string \<rightharpoonup> yaml_load) \<Rightarrow> (string \<rightharpoonup> string) \<Rightarrow> (string \<rightharpoonup> string)
   \<Rightarrow> py_error + 'n option overview_row list" where
  "load_and_process_overview to_numeric calibration_code_list base_data_dir text_files
       yaml_files treatments_dic variable_name_mapping =
     (case foldE (load_one to_numeric base_data_dir text_files yaml_files)
             calibration_code_list \<lparr>config_file = None, list_overview_df = []\<rparr> of
        Inl e \<Rightarrow> Inl e
      | Inr st \<Rightarrow>
          if list_overview_df st = [] then Inl ValueError
          else Inr (map (relabel treatments_dic variable_name_mapping)
                      (concat (list_overview_df st))))"

text \<open>
  The vocabulary of the claims about the returned frame: the record \<open>r\<close> agrees with the
  parsed record \<open>x\<close> on the seven parsed columns.
\<close>

definition same_parsed :: "('v, 'a) row_scheme \<Rightarrow> ('v, 'b) row_scheme \<Rightarrow> bool" where
  "same_parsed r x \<longleftrightarrow>
     treatment r = treatment x \<and> cultivar r = cultivar x \<and> variable r = variable x
     \<and> value_simulated r = value_simulated x \<and> value_measured r = value_measured x
     \<and> experiment_col r = experiment_col x \<and> position r = position x"

text \<open>
  The record \<open>r\<close> of a tagged frame comes from the folder its calibration code names:
  it agrees with a record parsed from that folder's \<open>OVERVIEW.OUT\<close> whose measured value
  is present, and when that folder's \<open>config.yaml\<close> loads, its three label columns are
  the texts of the fields of that configuration.
\<close>

definition from_folder ::
  "(string \<Rightarrow> 'n option) \<Rightarrow> string \<Rightarrow> (string \<rightharpoonup> string list) \<Rightarrow> (string \<rightharpoonup> yaml_load)
   \<Rightarrow> ('n option, 'a) tagged_row_scheme \<Rightarrow> bool" where
  "from_folder to_numeric base_data_dir text_files yaml_files r \<longleftrightarrow>
     (\<exists>lines raw h x.
        text_files (path_join3 base_data_dir (calibration_code r) ''OVERVIEW.OUT'') = Some lines
        \<and> extract_simulation_data to_numeric lines = Inr (raw, h)
        \<and> x \<in> set raw \<and> value_measured x \<noteq> None \<and> same_parsed r x)
     \<and> (\<forall>y. yaml_files (path_join3 base_data_dir (calibration_code r) ''config.yaml'')
              = Some (Loaded y)
           \<longrightarrow> config_field y ''calibration_method'' = Inr (calibration_method r)
               \<and> config_field y ''short_label'' = Inr (short_label r)
               \<and> config_field y ''long_label'' = Inr (long_label r))"

text \<open>A calibration folder with the block above and a configuration with list-valued fields.\<close>

definition example_text_files :: "string \<rightharpoonup> string list" where
  "example_text_files = [''data/BM-ts/OVERVIEW.OUT'' \<mapsto> overview_block]"

definition example_config :: "(yaml \<times> yaml) list" where
  "example_config =
     [(YStr ''short_label'', YSeq [YStr ''BM'']),
      (YStr ''long_label'', YSeq [YStr ''Biomass time series'']),
      (YStr ''calibration_method'', YSeq [YStr ''GLUE'', YStr ''manual'']),
      (YStr ''overview_variables'', YSeq [])]"

definition example_yaml_files :: "string \<rightharpoonup> yaml_load" where
  "example_yaml_files = [''data/BM-ts/config.yaml'' \<mapsto> Loaded (YMap example_config)]"

definition example_treatments_dic :: "string \<rightharpoonup> string" where
  "example_treatments_dic = [''WW-2'' \<mapsto> ''WW-23'']"

definition example_variable_name_mapping :: "string \<rightharpoonup> string" where
  "example_variable_name_mapping = [''Anthesis day (dap)'' \<mapsto> ''Anthesis (DAP)'']"

text \<open>The frame that \<open>load_and_process_overview\<close> returns for this folder.\<close>

definition example_overview_row :: "string option overview_row" where
  "example_overview_row =
     \<lparr>treatment = ''WW-23_YR'', cultivar = ''Yecora Rojo'',
      variable = ''Anthesis day (dap)'', value_simulated = Some ''88'',
      value_measured = Some ''90'',
      experiment_col = Some ''KSAS8101 WH 10'', position = 2,
      calibration_code = ''BM-ts'', plantgro_variables = [],
      overview_variables = [], calibration_method = ''GLUE, manual'',
      short_label = ''BM'', long_label = ''Biomass time series'',
      treatment_label = Some ''WW-23'',
      variable_label = Some ''Anthesis (DAP)''\<rparr>"

text \<open>
  Three calibration folders with the same \<open>OVERVIEW.OUT\<close>: the first with the
  configuration above, the second with a malformed \<open>config.yaml\<close>, the third with a
  configuration whose short label is a plain string. Then the frame that
  \<open>load_and_process_overview\<close> returns for them.
\<close>

definition three_folder_text_files :: "string \<rightharpoonup> string list" where
  "three_folder_text_files =
     [''data/BM-ts/OVERVIEW.OUT'' \<mapsto> overview_block,
      ''data/GR-ts/OVERVIEW.OUT'' \<mapsto> overview_block,
      ''data/YD-ts/OVERVIEW.OUT'' \<mapsto> overview_block]"

definition scalar_config :: "(yaml \<times> yaml) list" where
  "scalar_config =
     [(YStr ''short_label'', YStr ''YD''),
      (YStr ''long_label'', YSeq [YStr ''Yield'']),
      (YStr ''calibration_method'', YSeq [YStr ''GLUE''])]"

definition three_folder_yaml_files :: "string \<rightharpoonup> yaml_load" where
  "three_folder_yaml_files =
     [''data/BM-ts/config.yaml'' \<mapsto> Loaded (YMap example_config),
      ''data/GR-ts/config.yaml'' \<mapsto> YAMLError,
      ''data/YD-ts/config.yaml'' \<mapsto> Loaded (YMap scalar_config)]"

definition three_folder_rows :: "string option overview_row list" where
  "three_folder_rows =
     [example_overview_row,
      example_overview_row\<lparr>calibration_code := ''GR-ts''\<rparr>,
      example_overview_row\<lparr>calibration_code := ''YD-ts'', calibration_method := ''GLUE'',
        short_label := ''Y, D'', long_label := ''Yield''\<rparr>]"

section \<open>\<open>load_prepare_time_series_data\<close>: the reconciliation of measurements\<close>

text \<open>
  The part of \<open>load_prepare_time_series_data\<close> that joins the measurements to the
  simulated runs and fills the days after planting: the computation of \<open>dap0_dates_dt\<close>
  and the statements from the construction of \<open>mapping_df\<close> to the assignment of the
  missing \<open>DAP\<close> values. The text is the same in \<open>utils.py\<close> and in \<open>ts_get_data.py\<close>.
  Its inputs are the variables that are live there: \<open>plantgro_df\<close> (already filtered by
  treatment, with its composed \<open>DATE\<close>), \<open>wht_full_df\<close> (the cells of the \<open>.WHT\<close> files
  as strings, with \<open>experiment_id\<close>), the dictionaries \<open>treatment_experiment_name\<close> (its
  items in order) and \<open>treatment_number_name\<close>, and \<open>treatment\<close>.

  Two library functions are parameters: \<open>py_int\<close> is \<open>int\<close> on a string (\<open>None\<close> when it
  raises \<open>ValueError\<close>), and \<open>to_datetime\<close> is \<open>pd.to_datetime(..., format='%Y%j')\<close> on
  one string, giving the day as a day number (\<open>None\<close> when it raises). The measurement
  columns of the \<open>.WHT\<close> files are kept as one field \<open>cells\<close>; they are taken not to
  clash with the names of the metadata and timing columns.
\<close>

record plantgro_row =
  pg_DATE :: string
  pg_DAS :: int
  pg_DAP :: int
  pg_treatment :: string
  pg_genotype :: string

record 'c wht_input_row =
  in_TRNO :: string
  in_DATE :: string
  in_experiment_id :: string
  in_cells :: 'c

record mapping_row =
  map_experiment_id :: string
  map_treatment_number :: int
  map_sim_id :: string
  map_treatment :: string
  map_genotype :: string

text \<open>
  A record of \<open>wht_full_df\<close> after the two merges and the assignment of \<open>DAP\<close>. \<open>DAS\<close> and
  \<open>DAP\<close> are \<open>None\<close> where the frame holds \<open>NaN\<close>.
\<close>

record 'c wht_row =
  TRNO :: int
  DATE :: string
  experiment_id :: string
  cells :: 'c
  treatment_number :: int
  sim_id :: string
  wht_treatment :: string
  genotype :: string
  DAS :: "int option"
  DAP :: "int option"
  DATE_dt :: int










text \<open>
  One record after both merges, with its converted date, and the assignment
  \<open>wht_full_df.loc[missing_dap_mask, 'DAP'] = (DATE_dt - reference).dt.days\<close>: a missing
  \<open>DAP\<close> becomes the difference in days, which is itself missing when the reference is
  \<open>NaT\<close>.
\<close>

definition fill_row ::
  "int option \<Rightarrow> ((int \<times> 'c wht_input_row) \<times> mapping_row) \<times> plantgro_row option \<Rightarrow> int
   \<Rightarrow> 'c wht_row" where
  "fill_row reference joined date_dt =
     (case joined of
        (((n, w), m), t) \<Rightarrow>
          \<lparr>TRNO = n, DATE = in_DATE w, experiment_id = in_experiment_id w, cells = in_cells w,
           treatment_number = map_treatment_number m, sim_id = map_sim_id m,
           wht_treatment = map_treatment m, genotype = map_genotype m,
           DAS = map_option pg_DAS t,
           DAP = (case t of
                    Some p \<Rightarrow> Some (pg_DAP p)
                  | None \<Rightarrow> (case reference of
                               None \<Rightarrow> None
                             | Some ref \<Rightarrow> Some (date_dt - ref))),
           DATE_dt = date_dt\<rparr>)"














section \<open>Properties of \<open>validate_file_path\<close>\<close>

text \<open>
  Claim C10. \<open>validate_file_path\<close> raises \<open>ValueError\<close> exactly when its argument is not
  a string or is the empty string, raises \<open>FileNotFoundError\<close> exactly when the argument
  is a non-empty string that does not name an existing file, and in every other case
  returns its argument unchanged.
\<close>

theorem validate_file_path_spec:
  "(validate_file_path isfile a = Inl ValueError
      \<longleftrightarrow> (\<not> isinstance_str a \<or> a = PyStr []))
   \<and> (validate_file_path isfile a = Inl FileNotFoundError
      \<longleftrightarrow> (\<exists>p. a = PyStr p \<and> p \<noteq> [] \<and> \<not> isfile p))
   \<and> (validate_file_path isfile a \<noteq> Inl ValueError
        \<and> validate_file_path isfile a \<noteq> Inl FileNotFoundError
      \<longrightarrow> validate_file_path isfile a = Inr a)"
  by (cases a) (auto simp: validate_file_path_def truthy_def isinstance_str_def)

theorem validate_file_path_spec_witness:
  "validate_file_path (\<lambda>p. p = ''a/OVERVIEW.OUT'') (PyStr ''a/OVERVIEW.OUT'')
     = Inr (PyStr ''a/OVERVIEW.OUT'')
   \<and> validate_file_path (\<lambda>p. p = ''a/OVERVIEW.OUT'') (PyStr ''b/OVERVIEW.OUT'')
     = Inl FileNotFoundError
   \<and> validate_file_path (\<lambda>p. p = ''a/OVERVIEW.OUT'') (PyStr []) = Inl ValueError
   \<and> validate_file_path (\<lambda>p. p = ''a/OVERVIEW.OUT'') (PyOther True) = Inl ValueError"
  using validate_file_path_spec [of "\<lambda>p. p = ''a/OVERVIEW.OUT''" "PyStr ''a/OVERVIEW.OUT''"]
    validate_file_path_spec [of "\<lambda>p. p = ''a/OVERVIEW.OUT''" "PyStr ''b/OVERVIEW.OUT''"]
    validate_file_path_spec [of "\<lambda>p. p = ''a/OVERVIEW.OUT''" "PyStr []"]
    validate_file_path_spec [of "\<lambda>p. p = ''a/OVERVIEW.OUT''" "PyOther True"]
  by (simp add: isinstance_str_def)

section \<open>Properties of \<open>wht_filedata_to_dataframe\<close>\<close>

lemma parse_data_lines_ok:
  "\<forall>l\<in>set ls. length (split_ws l) = length cols
   \<Longrightarrow> parse_data_lines cols ls = Inr (map split_ws ls)"
  by (induction ls) simp_all

lemma parse_data_lines_bad:
  "\<exists>l\<in>set ls. length (split_ws l) \<noteq> length cols
   \<Longrightarrow> parse_data_lines cols ls = Inl ValueError"
  by (induction ls) (auto simp: Let_def split: sum.splits)

lemma find_startswith_None:
  "find P ls = None \<longleftrightarrow> \<not> (\<exists>l\<in>set ls. P l)"
  by (auto simp: find_None_iff)

lemma find_is_hd_filter:
  "find P ls = Some l \<Longrightarrow> hd (filter P ls) = l"
  by (induction ls) (auto split: if_splits)

text \<open>
  Claim C8. \<open>wht_filedata_to_dataframe\<close> raises \<open>ValueError\<close> if no line starts with
  \<open>@\<close>, and raises \<open>ValueError\<close> if some data line (a line that is not blank and does not
  start with \<open>*\<close>, \<open>!\<close> or \<open>@\<close>) splits into a number of whitespace-separated tokens
  different from the number of header columns. Otherwise it returns the DataFrame whose
  columns are the tokens of the first \<open>@\<close> line without its leading \<open>@\<close>, and whose rows
  are the token lists of exactly the data lines, in file order.
\<close>

theorem wht_filedata_to_dataframe_spec:
  "(\<not> (\<exists>l\<in>set lines. startswith l ''@'')
      \<longrightarrow> wht_filedata_to_dataframe lines = Inl ValueError)
   \<and> ((\<exists>l\<in>set lines. is_data_line l
          \<and> length (split_ws (strip l)) \<noteq> length (header_columns lines))
      \<longrightarrow> wht_filedata_to_dataframe lines = Inl ValueError)
   \<and> ((\<exists>l\<in>set lines. startswith l ''@'')
        \<and> (\<forall>l\<in>set lines. is_data_line l
              \<longrightarrow> length (split_ws (strip l)) = length (header_columns lines))
      \<longrightarrow> wht_filedata_to_dataframe lines
            = Inr \<lparr>columns = header_columns lines,
                   rows = map (\<lambda>l. split_ws (strip l)) (filter is_data_line lines)\<rparr>)"
proof (cases "find (\<lambda>line. startswith line ''@'') lines")
  case None
  then have "\<not> (\<exists>l\<in>set lines. startswith l ''@'')"
    by (simp add: find_startswith_None)
  with None show ?thesis
    by (simp add: wht_filedata_to_dataframe_def)
next
  case (Some h)
  then have hd: "header_columns lines = split_ws (drop 1 (strip h))"
    by (simp add: header_columns_def find_is_hd_filter)
  from Some have ex: "\<exists>l\<in>set lines. startswith l ''@''"
    using find_startswith_None [of "\<lambda>line. startswith line ''@''" lines] by simp
  have bad: "wht_filedata_to_dataframe lines = Inl ValueError"
    if "\<exists>l\<in>set lines. is_data_line l
          \<and> length (split_ws (strip l)) \<noteq> length (header_columns lines)"
  proof -
    from that have "\<exists>l\<in>set (map strip (filter is_data_line lines)).
        length (split_ws l) \<noteq> length (split_ws (drop 1 (strip h)))"
      by (auto simp: hd)
    then have "parse_data_lines (split_ws (drop 1 (strip h)))
        (map strip (filter is_data_line lines)) = Inl ValueError"
      by (rule parse_data_lines_bad)
    with Some show ?thesis
      by (simp add: wht_filedata_to_dataframe_def)
  qed
  have good: "wht_filedata_to_dataframe lines
      = Inr \<lparr>columns = header_columns lines,
             rows = map (\<lambda>l. split_ws (strip l)) (filter is_data_line lines)\<rparr>"
    if "\<forall>l\<in>set lines. is_data_line l
          \<longrightarrow> length (split_ws (strip l)) = length (header_columns lines)"
  proof -
    from that have "\<forall>l\<in>set (map strip (filter is_data_line lines)).
        length (split_ws l) = length (split_ws (drop 1 (strip h)))"
      by (auto simp: hd)
    then have "parse_data_lines (split_ws (drop 1 (strip h)))
        (map strip (filter is_data_line lines))
        = Inr (map split_ws (map strip (filter is_data_line lines)))"
      by (rule parse_data_lines_ok)
    with Some show ?thesis
      by (simp add: wht_filedata_to_dataframe_def hd comp_def)
  qed
  from ex bad good show ?thesis by blast
qed

theorem wht_filedata_to_dataframe_spec_witness:
  "wht_filedata_to_dataframe [''*EXP.DATA\<newline>'', ''! note\<newline>'', ''   1 23045 2.5\<newline>'']
      = Inl ValueError
   \<and> wht_filedata_to_dataframe [''@TRNO DATE LAID\<newline>'', ''   1 23045\<newline>''] = Inl ValueError
   \<and> wht_filedata_to_dataframe
        [''*EXP.DATA\<newline>'', ''@TRNO DATE  LAID\<newline>'', ''   1 23045 2.5\<newline>'', ''\<newline>'',
         ''! note\<newline>'', ''   2 23050 3.1\<newline>'']
      = Inr \<lparr>columns = [''TRNO'', ''DATE'', ''LAID''],
             rows = [[''1'', ''23045'', ''2.5''], [''2'', ''23050'', ''3.1'']]\<rparr>"
  using
    wht_filedata_to_dataframe_spec
      [of "[''*EXP.DATA\<newline>'', ''! note\<newline>'', ''   1 23045 2.5\<newline>'']"]
    wht_filedata_to_dataframe_spec [of "[''@TRNO DATE LAID\<newline>'', ''   1 23045\<newline>'']"]
    wht_filedata_to_dataframe_spec
      [of "[''*EXP.DATA\<newline>'', ''@TRNO DATE  LAID\<newline>'', ''   1 23045 2.5\<newline>'', ''\<newline>'',
            ''! note\<newline>'', ''   2 23050 3.1\<newline>'']"]
  by (simp add: header_columns_def is_data_line_def startswith_def strip_def lstrip_def
      rstrip_def split_ws_def is_space_def)

section \<open>Properties of \<open>simulations_lines\<close>\<close>

lemma enumerate_upt: "enumerate 0 xs = map (\<lambda>i. (i, xs ! i)) [0..<length xs]"
  by (rule nth_equalityI) (simp_all add: nth_enumerate_eq)

lemma dssat_lines_filter: "dssat_lines lines = filter (is_dssat lines) [0..<length lines]"
  by (simp add: dssat_lines_def enumerate_upt filter_map comp_def is_dssat_def [abs_def])

lemma run_lines_filter:
  "run_lines lines
   = map (\<lambda>i. (i, strip (lines ! i))) (filter (is_treatment lines) [0..<length lines])"
  by (simp add: run_lines_def enumerate_upt filter_map comp_def is_treatment_def [abs_def])

lemma find_map_filter:
  "find P (map f (filter Q xs)) = map_option f (find (\<lambda>x. Q x \<and> P (f x)) xs)"
  by (induction xs) auto

lemma find_filter: "find Q (filter P xs) = find (\<lambda>x. P x \<and> Q x) xs"
  by (induction xs) auto

lemma find_run_lines:
  "find (\<lambda>(run_start, run_line). s \<le> run_start \<and> run_start \<le> e) (run_lines lines)
   = map_option (\<lambda>i. (i, strip (lines ! i)))
       (find (\<lambda>r. is_treatment lines r \<and> s \<le> r \<and> r \<le> e) [0..<length lines])"
  by (simp add: run_lines_filter find_map_filter)

lemma find_all_less: "\<forall>x\<in>set xs. \<not> P x \<Longrightarrow> find P (xs @ ys) = find P ys"
  by (induction xs) auto

lemma next_in_filter:
  assumes "sorted_wrt (<) (xs :: nat list)" and "filter P xs = pre @ s # rest"
  shows "find (\<lambda>j. s < j \<and> P j) xs = (case rest of [] \<Rightarrow> None | nx # _ \<Rightarrow> Some nx)"
proof -
  have srt: "sorted_wrt (<) (pre @ s # rest)"
    using assms sorted_wrt_filter [of "(<)" xs P] by simp
  have "find (\<lambda>j. s < j \<and> P j) xs = find (\<lambda>j. s < j) (filter P xs)"
    by (simp add: find_filter conj_commute)
  also have "\<dots> = find (\<lambda>j. s < j) (s # rest)"
  proof -
    have "\<forall>x\<in>set pre. \<not> s < x"
      using srt by (auto simp: sorted_wrt_append dest: less_asym)
    then show ?thesis
      unfolding assms(2) by (rule find_all_less)
  qed
  also have "\<dots> = (case rest of [] \<Rightarrow> None | nx # _ \<Rightarrow> Some nx)"
    using srt by (cases rest) (auto simp: sorted_wrt_append)
  finally show ?thesis .
qed

lemma end_line_block_end:
  assumes "dssat_lines lines = pre @ s # rest"
  shows "(case rest of [] \<Rightarrow> length lines | nx # _ \<Rightarrow> nx - 1) = block_end lines s"
proof -
  have "find (\<lambda>j. s < j \<and> is_dssat lines j) [0..<length lines]
        = (case rest of [] \<Rightarrow> None | nx # _ \<Rightarrow> Some nx)"
    using assms by (intro next_in_filter) (simp_all add: dssat_lines_filter)
  then show ?thesis
    by (simp add: block_end_def split: list.splits)
qed

lemma rsplit1_head_nonempty:
  assumes "rsplit1 s = h # t"
  shows "h \<noteq> []"
proof -
  define r where "r = dropWhile is_space (rev s)"
  define tok where "tok = rev (takeWhile (\<lambda>c. \<not> is_space c) r)"
  define rest where "rest = rev (dropWhile is_space (dropWhile (\<lambda>c. \<not> is_space c) r))"
  have eq: "rsplit1 s = (if r = [] then [] else if rest = [] then [tok] else [rest, tok])"
    unfolding rsplit1_def r_def tok_def rest_def Let_def ..
  show ?thesis
  proof (cases "r = []")
    case True
    with eq assms show ?thesis by simp
  next
    case False
    then have "\<not> is_space (hd r)"
      unfolding r_def by (rule hd_dropWhile)
    with False have "takeWhile (\<lambda>c. \<not> is_space c) r \<noteq> []"
      by (cases r) simp_all
    then have tk: "tok \<noteq> []"
      by (simp add: tok_def)
    show ?thesis
    proof (cases "rest = []")
      case True
      with False eq assms have "h = tok" by simp
      with tk show ?thesis by simp
    next
      case nonempty: False
      with False eq assms have "h = rest" by simp
      with nonempty show ?thesis by simp
    qed
  qed
qed

lemma treatment_name_nonempty:
  assumes "treatment_name l = Inr name"
  shows "name \<noteq> []"
proof -
  from assms obtain p where "getitem (rsplit1 (strip p)) 0 = Inr name"
    by (auto simp: treatment_name_def split: sum.splits)
  then have "rsplit1 (strip p) = name # tl (rsplit1 (strip p))"
    by (cases "rsplit1 (strip p)") (auto simp: getitem_def)
  then show ?thesis by (rule rsplit1_head_nonempty)
qed

lemma sections_loop_foldE:
  "dssat_lines lines = pre @ rest
   \<Longrightarrow> sections_loop (length lines) (run_lines lines) rest d = foldE (add_block lines) rest d"
proof (induction rest arbitrary: pre d)
  case Nil
  show ?case by simp
next
  case (Cons s rest)
  have e: "(case rest of [] \<Rightarrow> length lines | nx # _ \<Rightarrow> nx - 1) = block_end lines s"
    using Cons.prems by (rule end_line_block_end)
  have step: "sections_loop (length lines) (run_lines lines) rest d'
              = foldE (add_block lines) rest d'" for d'
    using Cons.IH [of "pre @ [s]" d'] Cons.prems by simp
  have find_eq: "find (\<lambda>(run_start, run_line). s \<le> run_start \<and> run_start \<le> block_end lines s)
        (run_lines lines)
      = map_option (\<lambda>i. (i, strip (lines ! i))) (block_treatment lines s)"
    by (simp add: find_run_lines block_treatment_def)
  show ?case
  proof (cases "block_treatment lines s")
    case None
    then have ab: "add_block lines s d = Inr d"
      by (simp add: add_block_def)
    from None show ?thesis
      by (simp add: e find_eq ab step)
  next
    case (Some r)
    show ?thesis
    proof (cases "treatment_name (strip (lines ! r))")
      case (Inl err)
      with Some have ab: "add_block lines s d = Inl err"
        by (simp add: add_block_def)
      from Some Inl show ?thesis
        by (simp add: e find_eq ab)
    next
      case (Inr name)
      then have ne: "name \<noteq> []" by (rule treatment_name_nonempty)
      from Some Inr have ab:
        "add_block lines s d = Inr (AList.update name (s, block_end lines s) d)"
        by (simp add: add_block_def)
      from Some Inr ne show ?thesis
        by (simp add: e find_eq ab step)
    qed
  qed
qed

lemma simulations_lines_foldE:
  "simulations_lines lines = foldE (add_block lines) (dssat_lines lines) []"
  unfolding simulations_lines_def by (rule sections_loop_foldE [of _ "[]"]) simp

lemma add_block_cases:
  "add_block lines s d =
     (case block_treatment lines s of
        None \<Rightarrow> Inr d
      | Some r \<Rightarrow>
          (case treatment_name (strip (lines ! r)) of
             Inl e \<Rightarrow> Inl e
           | Inr name \<Rightarrow> Inr (AList.update name (s, block_end lines s) d)))"
  by (simp add: add_block_def)

lemma add_block_named:
  "named_block lines s name
   \<Longrightarrow> add_block lines s d = Inr (AList.update name (s, block_end lines s) d)"
  by (simp add: add_block_def named_block_def split: option.splits)

lemma add_block_Inr:
  assumes "add_block lines s d = Inr d'"
  shows "(block_treatment lines s = None \<and> d' = d)
         \<or> (\<exists>name. named_block lines s name
                \<and> d' = AList.update name (s, block_end lines s) d)"
  using assms by (auto simp: add_block_def named_block_def split: option.splits sum.splits)

lemma add_block_map_of:
  assumes "add_block lines s d = Inr d'"
  shows "map_of d' name
         = (if named_block lines s name then Some (s, block_end lines s) else map_of d name)"
  using assms
  by (auto simp: add_block_def named_block_def update_conv' split: option.splits sum.splits)

lemma add_block_distinct:
  assumes "add_block lines s d = Inr d'" and "distinct (map fst d)"
  shows "distinct (map fst d')"
  using add_block_Inr [OF assms(1)] assms(2) by (auto simp: distinct_update)

lemma foldE_add_block_distinct:
  "foldE (add_block lines) ss d = Inr d' \<Longrightarrow> distinct (map fst d) \<Longrightarrow> distinct (map fst d')"
proof (induction ss arbitrary: d)
  case Nil
  then show ?case by simp
next
  case (Cons s ss)
  then show ?case
    by (auto split: sum.splits dest: add_block_distinct)
qed

lemma foldE_add_block_map_of:
  "foldE (add_block lines) ss d = Inr d'
   \<Longrightarrow> map_of d' name
       = (case filter (\<lambda>s. named_block lines s name) ss of
            [] \<Rightarrow> map_of d name
          | x # xs \<Rightarrow> Some (last (x # xs), block_end lines (last (x # xs))))"
proof (induction ss arbitrary: d)
  case Nil
  then show ?case by simp
next
  case (Cons s ss)
  from Cons.prems obtain d1 where d1: "add_block lines s d = Inr d1"
    and rest: "foldE (add_block lines) ss d1 = Inr d'"
    by (auto split: sum.splits)
  note ih = Cons.IH [OF rest]
  note m = add_block_map_of [OF d1, of name]
  show ?case
  proof (cases "named_block lines s name")
    case True
    with ih m show ?thesis
      by (simp split: list.splits)
  next
    case False
    with ih m show ?thesis
      by (simp split: list.splits)
  qed
qed

lemma foldE_add_block_ok:
  "(\<exists>d'. foldE (add_block lines) ss d = Inr d')
   \<longleftrightarrow> (\<forall>s\<in>set ss. \<forall>r. block_treatment lines s = Some r
          \<longrightarrow> (\<exists>name. treatment_name (strip (lines ! r)) = Inr name))"
proof (induction ss arbitrary: d)
  case Nil
  show ?case by simp
next
  case (Cons s ss)
  show ?case
  proof (cases "block_treatment lines s")
    case None
    then have "add_block lines s d = Inr d" by (simp add: add_block_def)
    with None Cons.IH [of d] show ?thesis by simp
  next
    case (Some r)
    show ?thesis
    proof (cases "treatment_name (strip (lines ! r))")
      case (Inl e)
      with Some have "add_block lines s d = Inl e" by (simp add: add_block_def)
      with Some Inl show ?thesis by auto
    next
      case (Inr name)
      with Some have "add_block lines s d = Inr (AList.update name (s, block_end lines s) d)"
        by (simp add: add_block_def)
      with Some Inr Cons.IH [of "AList.update name (s, block_end lines s) d"] show ?thesis
        by simp
    qed
  qed
qed

lemma last_filter_props:
  "sorted_wrt (<) (ss :: nat list) \<Longrightarrow> filter P ss \<noteq> []
   \<Longrightarrow> last (filter P ss) \<in> set ss \<and> P (last (filter P ss))
       \<and> (\<forall>s'\<in>set ss. last (filter P ss) < s' \<longrightarrow> \<not> P s')"
proof (induction ss)
  case Nil
  then show ?case by simp
next
  case (Cons a ss)
  show ?case
  proof (cases "filter P ss = []")
    case True
    with Cons.prems have pa: "P a" by (auto split: if_splits)
    from True have "\<forall>s'\<in>set ss. \<not> P s'" by (simp add: filter_empty_conv)
    with True pa show ?thesis by simp
  next
    case False
    from Cons.prems have srt: "sorted_wrt (<) ss" and lt: "\<forall>x\<in>set ss. a < x" by simp_all
    note ih = Cons.IH [OF srt False]
    have l: "last (filter P (a # ss)) = last (filter P ss)"
      using False by simp
    from ih have "last (filter P ss) \<in> set ss" by simp
    with lt have "a < last (filter P ss)" by blast
    with ih show ?thesis unfolding l by auto
  qed
qed

lemma last_filter_iff:
  assumes "sorted_wrt (<) (ss :: nat list)"
  shows "(filter P ss \<noteq> [] \<and> last (filter P ss) = s)
         \<longleftrightarrow> (s \<in> set ss \<and> P s \<and> (\<forall>s'\<in>set ss. s < s' \<longrightarrow> \<not> P s'))"
proof
  assume "filter P ss \<noteq> [] \<and> last (filter P ss) = s"
  with last_filter_props [OF assms, of P] show "s \<in> set ss \<and> P s \<and> (\<forall>s'\<in>set ss. s < s' \<longrightarrow> \<not> P s')"
    by blast
next
  assume r: "s \<in> set ss \<and> P s \<and> (\<forall>s'\<in>set ss. s < s' \<longrightarrow> \<not> P s')"
  then have ne: "filter P ss \<noteq> []" by (auto simp: filter_empty_conv)
  let ?t = "last (filter P ss)"
  from last_filter_props [OF assms ne]
  have t: "?t \<in> set ss" "P ?t" "\<forall>s'\<in>set ss. ?t < s' \<longrightarrow> \<not> P s'" by simp_all
  have "\<not> s < ?t" using r t by blast
  moreover have "\<not> ?t < s" using r t by blast
  ultimately have "?t = s" by simp
  with ne show "filter P ss \<noteq> [] \<and> last (filter P ss) = s" by simp
qed

lemma set_dssat_lines: "s \<in> set (dssat_lines lines) \<longleftrightarrow> s < length lines \<and> is_dssat lines s"
  by (auto simp: dssat_lines_filter)

lemma sorted_dssat_lines: "sorted_wrt (<) (dssat_lines lines)"
  by (simp add: dssat_lines_filter sorted_wrt_filter)

text \<open>
  The second piece of \<open>split(':')\<close>, and the first piece of \<open>rsplit(maxsplit=1)\<close> on a
  stripped text, without the splitting functions.
\<close>

lemma split_str_aux_colon:
  "split_str_aux '':'' 0 acc cs
   = (rev acc @ takeWhile (\<lambda>c. c \<noteq> CHR '':'') cs)
     # (case dropWhile (\<lambda>c. c \<noteq> CHR '':'') cs of
          [] \<Rightarrow> []
        | c # rest \<Rightarrow> split_str_aux '':'' 0 [] rest)"
proof (induction cs arbitrary: acc)
  case Nil
  show ?case by simp
next
  case (Cons c cs)
  show ?case
  proof (cases "c = CHR '':''")
    case True
    then show ?thesis by (simp add: startswith_def)
  next
    case False
    then show ?thesis by (simp add: startswith_def Cons.IH [of "c # acc"])
  qed
qed

lemma split_str_colon:
  "split_str l '':''
   = takeWhile (\<lambda>c. c \<noteq> CHR '':'') l
     # (case dropWhile (\<lambda>c. c \<noteq> CHR '':'') l of
          [] \<Rightarrow> []
        | c # rest \<Rightarrow> split_str rest '':'')"
  unfolding split_str_def using split_str_aux_colon [of "[]" l] by simp

lemma colon_count_0: "colon_count l = 0 \<longleftrightarrow> CHR '':'' \<notin> set l"
  by (auto simp: colon_count_def filter_empty_conv)

lemma dropWhile_colon_Nil: "dropWhile (\<lambda>c. c \<noteq> CHR '':'') l = [] \<longleftrightarrow> CHR '':'' \<notin> set l"
  by auto

lemma colon_count_split:
  "colon_count l = colon_count (takeWhile (\<lambda>c. c \<noteq> CHR '':'') l)
                  + colon_count (dropWhile (\<lambda>c. c \<noteq> CHR '':'') l)"
  unfolding colon_count_def
  by (metis filter_append length_append takeWhile_dropWhile_id)

lemma colon_count_takeWhile: "colon_count (takeWhile (\<lambda>c. c \<noteq> CHR '':'') l) = 0"
  unfolding colon_count_0 by (auto dest: set_takeWhileD)

lemma second_piece:
  assumes "colon_count l \<le> 1"
  shows "getitem (split_str l '':'') 1
         = (if CHR '':'' \<in> set l then Inr (drop 1 (dropWhile (\<lambda>c. c \<noteq> CHR '':'') l))
            else Inl IndexError)"
proof (cases "dropWhile (\<lambda>c. c \<noteq> CHR '':'') l")
  case Nil
  then have "CHR '':'' \<notin> set l" using dropWhile_colon_Nil [of l] by blast
  then show ?thesis
    by (simp add: split_str_colon [of l, unfolded Nil] getitem_def)
next
  case (Cons c rest)
  then have in_l: "CHR '':'' \<in> set l"
    using dropWhile_colon_Nil [of l] by auto
  from Cons have c: "c = CHR '':''"
    using hd_dropWhile [of "\<lambda>c. c \<noteq> CHR '':''" l] by auto
  have "colon_count l = colon_count (c # rest)"
    using colon_count_split [of l] Cons by (simp add: colon_count_takeWhile)
  with assms c have "colon_count rest = 0" by (simp add: colon_count_def)
  then have no: "CHR '':'' \<notin> set rest" using colon_count_0 [of rest] by blast
  then have dr: "dropWhile (\<lambda>c. c \<noteq> CHR '':'') rest = []"
    using dropWhile_colon_Nil [of rest] by blast
  from no have "takeWhile (\<lambda>c. c \<noteq> CHR '':'') rest = rest"
    by (auto intro: takeWhile_eq_all_conv [THEN iffD2])
  then have "split_str rest '':'' = [rest]"
    by (simp add: split_str_colon [of rest, unfolded dr])
  with in_l show ?thesis
    by (simp add: split_str_colon [of l, unfolded Cons] getitem_def Cons)
qed

lemma strip_last: "strip p \<noteq> [] \<Longrightarrow> \<not> is_space (last (strip p))"
proof -
  assume ne: "strip p \<noteq> []"
  let ?x = "dropWhile is_space (rev (lstrip p))"
  have s: "strip p = rev ?x" by (simp add: strip_def rstrip_def)
  with ne have x: "?x \<noteq> []" by simp
  then have "\<not> is_space (hd ?x)" by (rule hd_dropWhile)
  moreover have "last (strip p) = hd ?x"
    unfolding s using x by (simp add: last_rev)
  ultimately show ?thesis by simp
qed

lemma dropWhile_snoc_keep:
  "\<not> P x \<Longrightarrow> \<exists>zs. dropWhile P (ys @ [x]) = zs @ [x]"
  by (cases "\<forall>y\<in>set ys. P y") (auto simp: dropWhile_append)

lemma strip_hd: "strip p \<noteq> [] \<Longrightarrow> \<not> is_space (hd (strip p))"
proof -
  assume ne: "strip p \<noteq> []"
  let ?q = "dropWhile is_space p"
  have s: "strip p = rev (dropWhile is_space (rev ?q))"
    by (simp add: strip_def rstrip_def lstrip_def)
  have q: "?q \<noteq> []"
  proof
    assume e: "?q = []"
    have "strip p = []" unfolding s e by simp
    with ne show False by simp
  qed
  then have nsp: "\<not> is_space (hd ?q)" by (rule hd_dropWhile)
  from q have "rev ?q = rev (tl ?q) @ [hd ?q]"
    by (cases ?q) simp_all
  with dropWhile_snoc_keep [of is_space "hd ?q" "rev (tl ?q)"] nsp
  obtain zs where "dropWhile is_space (rev ?q) = zs @ [hd ?q]" by auto
  then have "strip p = hd ?q # rev zs" unfolding s by simp
  with nsp show ?thesis by simp
qed

lemma last_dropWhile_nonempty: "dropWhile P xs \<noteq> [] \<Longrightarrow> last (dropWhile P xs) = last xs"
  by (metis last_appendR takeWhile_dropWhile_id)

lemma rsplit1_stripped:
  "getitem (rsplit1 (strip p)) 0
   = (if strip p = [] then Inl IndexError
      else Inr (if without_last_token (strip p) = [] then strip p
                else without_last_token (strip p)))"
proof (cases "strip p = []")
  case True
  then show ?thesis by (simp add: rsplit1_def getitem_def)
next
  case False
  define t where "t = strip p"
  from False have t: "t \<noteq> []" by (simp add: t_def)
  from strip_last [OF False] have lt: "\<not> is_space (last t)" by (simp add: t_def)
  from strip_hd [OF False] have ht: "\<not> is_space (hd t)" by (simp add: t_def)
  from t obtain ys y where ty: "t = ys @ [y]" by (cases t rule: rev_cases) auto
  with lt have "\<not> is_space y" by simp
  then have r: "dropWhile is_space (rev t) = rev t"
    unfolding ty by simp
  define u where "u = dropWhile (\<lambda>c. \<not> is_space c) (rev t)"
  define rest where "rest = rev (dropWhile is_space u)"
  define tok where "tok = rev (takeWhile (\<lambda>c. \<not> is_space c) (rev t))"
  have w: "without_last_token t = rest"
    by (simp add: without_last_token_def rstrip_def rest_def u_def)
  have rs: "rsplit1 t = (if rest = [] then [tok] else [rest, tok])"
    unfolding rsplit1_def Let_def r rest_def u_def tok_def using t by simp
  have tok_t: "tok = t" if "rest = []"
  proof -
    from that have all: "\<forall>c\<in>set u. is_space c" by (simp add: rest_def)
    have "u = []"
    proof (rule ccontr)
      assume ne: "u \<noteq> []"
      then have "last u = last (rev t)"
        unfolding u_def by (rule last_dropWhile_nonempty)
      also have "\<dots> = hd t" using t by (simp add: last_rev)
      finally have "last u = hd t" .
      moreover from ne all have "is_space (last u)" by simp
      ultimately show False using ht by simp
    qed
    then have tw: "takeWhile (\<lambda>c. \<not> is_space c) (rev t) = rev t"
      unfolding u_def by (metis append_Nil2 takeWhile_dropWhile_id)
    show ?thesis unfolding tok_def tw by simp
  qed
  show ?thesis
    using False tok_t unfolding t_def [symmetric] w rs
    by (simp add: getitem_def)
qed

lemma treatment_name_single_colon:
  assumes "colon_count l \<le> 1"
  shows "treatment_name l
         = (if after_first_colon l = [] then Inl IndexError
            else Inr (if without_last_token (after_first_colon l) = [] then after_first_colon l
                      else without_last_token (after_first_colon l)))"
proof (cases "CHR '':'' \<in> set l")
  case False
  then have d: "dropWhile (\<lambda>c. c \<noteq> CHR '':'') l = []" by auto
  have "after_first_colon l = []"
    unfolding after_first_colon_def d
    by (simp add: strip_def rstrip_def lstrip_def)
  with False second_piece [OF assms] show ?thesis
    by (simp add: treatment_name_def)
next
  case True
  with second_piece [OF assms]
  have "treatment_name l = getitem (rsplit1 (after_first_colon l)) 0"
    by (simp add: treatment_name_def after_first_colon_def)
  then show ?thesis
    unfolding after_first_colon_def rsplit1_stripped
    by (simp add: after_first_colon_def)
qed

lemma treatment_name_Inl: "treatment_name l = Inl e \<Longrightarrow> e = IndexError"
  by (auto simp: treatment_name_def getitem_def split: sum.splits if_splits)

lemma treatment_name_no_colon: "CHR '':'' \<notin> set l \<Longrightarrow> treatment_name l = Inl IndexError"
proof -
  assume no: "CHR '':'' \<notin> set l"
  then have d: "dropWhile (\<lambda>c. c \<noteq> CHR '':'') l = []" by auto
  show ?thesis
    by (simp add: treatment_name_def split_str_colon [of l, unfolded d] getitem_def)
qed

lemma not_space_colon: "\<not> is_space (CHR '':'')"
  by (simp add: is_space_def)

lemma dropWhile_weaker:
  "(\<And>x. P x \<Longrightarrow> Q x) \<Longrightarrow> dropWhile Q (dropWhile P xs) = dropWhile Q xs"
  by (induction xs) auto

lemma filter_dropWhile_disjoint:
  "(\<And>x. Q x \<Longrightarrow> \<not> P x) \<Longrightarrow> filter P (dropWhile Q xs) = filter P xs"
  by (induction xs) auto

lemma colon_count_lstrip: "colon_count (lstrip l) = colon_count l"
  unfolding colon_count_def lstrip_def
  by (subst filter_dropWhile_disjoint) (auto simp: not_space_colon)

lemma colon_count_rev: "colon_count (rev l) = colon_count l"
  by (simp add: colon_count_def flip: rev_filter)

lemma colon_count_rstrip: "colon_count (rstrip l) = colon_count l"
proof -
  have "colon_count (rstrip l) = colon_count (lstrip (rev l))"
    unfolding rstrip_def lstrip_def by (rule colon_count_rev)
  then show ?thesis by (simp add: colon_count_lstrip colon_count_rev)
qed

lemma colon_count_strip: "colon_count (strip l) = colon_count l"
  by (simp add: strip_def colon_count_rstrip colon_count_lstrip)

lemma rstrip_append_keep:
  "\<not> is_space c \<Longrightarrow> rstrip (a @ c # b) = a @ c # rstrip b"
proof -
  assume c: "\<not> is_space c"
  have "dropWhile is_space (rev b @ c # rev a)
        = (if \<forall>x\<in>set (rev b). is_space x then c # rev a
           else dropWhile is_space (rev b) @ c # rev a)"
    using c by (simp add: dropWhile_append)
  moreover have "(\<forall>x\<in>set (rev b). is_space x) \<Longrightarrow> dropWhile is_space (rev b) = []"
    by simp
  ultimately have "dropWhile is_space (rev b @ c # rev a)
        = dropWhile is_space (rev b) @ c # rev a"
    by (cases "\<forall>x\<in>set (rev b). is_space x") simp_all
  then show ?thesis by (simp add: rstrip_def)
qed

lemma strip_all_space: "\<forall>x\<in>set b. is_space x \<Longrightarrow> strip b = []"
proof -
  assume a: "\<forall>x\<in>set b. is_space x"
  then have 1: "dropWhile is_space b = []" by simp
  show ?thesis unfolding strip_def lstrip_def rstrip_def 1 by simp
qed

lemma rstrip_idem: "rstrip (rstrip r) = rstrip r"
proof (cases "dropWhile is_space (rev r)")
  case Nil
  then show ?thesis by (simp add: rstrip_def)
next
  case (Cons x xs)
  have "dropWhile is_space (rev r) \<noteq> []" unfolding Cons by simp
  then have "\<not> is_space (hd (dropWhile is_space (rev r)))" by (rule hd_dropWhile)
  then have "\<not> is_space x" unfolding Cons by simp
  then have "dropWhile is_space (x # xs) = x # xs" by simp
  then show ?thesis unfolding rstrip_def Cons by simp
qed

lemma rstrip_Cons_keep: "\<not> is_space x \<Longrightarrow> rstrip (x # r) = x # rstrip r"
  using rstrip_append_keep [of x "[]" r] by simp

lemma set_rstrip: "set (rstrip m) \<subseteq> set m"
  unfolding rstrip_def using set_dropWhileD [of _ is_space "rev m"] by auto

lemma strip_rstrip: "strip (rstrip b) = strip b"
proof (cases "\<forall>x\<in>set b. is_space x")
  case True
  moreover from True set_rstrip [of b] have "\<forall>x\<in>set (rstrip b). is_space x" by blast
  ultimately show ?thesis by (simp only: strip_all_space)
next
  case False
  then have ne: "dropWhile is_space b \<noteq> []" by simp
  define x where "x = hd (dropWhile is_space b)"
  define r where "r = tl (dropWhile is_space b)"
  have x: "\<not> is_space x" unfolding x_def using ne by (rule hd_dropWhile)
  have d: "dropWhile is_space b = x # r"
    unfolding x_def r_def using ne by (rule list.collapse [symmetric])
  have b: "takeWhile is_space b @ x # r = b"
    unfolding d [symmetric] by (rule takeWhile_dropWhile_id)
  have l: "lstrip b = x # r" by (simp only: lstrip_def d)
  have "rstrip b = rstrip (takeWhile is_space b @ x # r)"
    by (rule arg_cong [OF b [symmetric]])
  also have "\<dots> = takeWhile is_space b @ x # rstrip r"
    by (rule rstrip_append_keep [OF x])
  finally have rb: "rstrip b = takeWhile is_space b @ x # rstrip r" .
  have "dropWhile is_space (takeWhile is_space b @ x # rstrip r)
        = dropWhile is_space (x # rstrip r)"
    by (rule dropWhile_append2) (rule set_takeWhileD [THEN conjunct2])
  also have "\<dots> = x # rstrip r" using x by simp
  finally have l2: "lstrip (rstrip b) = x # rstrip r"
    by (simp only: lstrip_def rb)
  show ?thesis
    by (simp only: strip_def l l2 rstrip_Cons_keep [OF x] rstrip_idem)
qed

lemma after_first_colon_strip: "after_first_colon (strip l) = after_first_colon l"
proof -
  let ?ne = "\<lambda>c. c \<noteq> CHR '':''"
  have 1: "dropWhile ?ne (lstrip l) = dropWhile ?ne l"
    unfolding lstrip_def by (rule dropWhile_weaker) (auto simp: not_space_colon)
  have 2: "strip (drop 1 (dropWhile ?ne (rstrip m))) = strip (drop 1 (dropWhile ?ne m))" for m
  proof (cases "dropWhile ?ne m = []")
    case True
    then have "\<forall>x\<in>set m. x \<noteq> CHR '':''" by simp
    with set_rstrip [of m] have "\<forall>x\<in>set (rstrip m). x \<noteq> CHR '':''" by blast
    then have e: "dropWhile ?ne (rstrip m) = []" by simp
    show ?thesis unfolding e True ..
  next
    case False
    define rest where "rest = tl (dropWhile ?ne m)"
    from False have "\<not> ?ne (hd (dropWhile ?ne m))" by (rule hd_dropWhile)
    then have h: "hd (dropWhile ?ne m) = CHR '':''" by simp
    have "dropWhile ?ne m = hd (dropWhile ?ne m) # rest"
      unfolding rest_def using False by (rule list.collapse [symmetric])
    then have d: "dropWhile ?ne m = CHR '':'' # rest"
      by (simp only: h)
    have m: "takeWhile ?ne m @ CHR '':'' # rest = m"
      unfolding d [symmetric] by (rule takeWhile_dropWhile_id)
    have "rstrip m = rstrip (takeWhile ?ne m @ CHR '':'' # rest)"
      by (rule arg_cong [OF m [symmetric]])
    also have "\<dots> = takeWhile ?ne m @ CHR '':'' # rstrip rest"
      by (rule rstrip_append_keep [OF not_space_colon])
    finally have rm: "rstrip m = takeWhile ?ne m @ CHR '':'' # rstrip rest" .
    have "dropWhile ?ne (takeWhile ?ne m @ CHR '':'' # rstrip rest)
          = dropWhile ?ne (CHR '':'' # rstrip rest)"
      by (rule dropWhile_append2) (rule set_takeWhileD [THEN conjunct2])
    also have "\<dots> = CHR '':'' # rstrip rest" by simp
    finally have d2: "dropWhile ?ne (rstrip m) = CHR '':'' # rstrip rest"
      by (simp only: rm)
    show ?thesis unfolding d d2 by (simp add: strip_rstrip)
  qed
  show ?thesis
    unfolding after_first_colon_def strip_def [of l] 2 1 ..
qed

lemma set_strip: "set (strip l) \<subseteq> set l"
proof -
  have "set (lstrip m) \<subseteq> set m" for m
    unfolding lstrip_def using set_dropWhileD [of _ is_space m] by auto
  with set_rstrip show ?thesis unfolding strip_def by blast
qed

lemma treatment_name_ok:
  assumes "treatment_line_ok l"
  shows "treatment_name (strip l) = Inr (name_after_colon l)"
proof -
  from assms have c: "colon_count (strip l) \<le> 1" and n: "name_after_colon l \<noteq> []"
    by (simp_all add: treatment_line_ok_def colon_count_strip)
  from n have w: "without_last_token (after_first_colon l) \<noteq> []"
    by (simp add: name_after_colon_def)
  have "without_last_token [] = []" by (simp add: without_last_token_def rstrip_def)
  with w have a: "after_first_colon l \<noteq> []" by auto
  show ?thesis
    unfolding treatment_name_single_colon [OF c] after_first_colon_strip
    using a w by (simp add: name_after_colon_def)
qed

lemma treatment_name_no_colon_strip:
  "CHR '':'' \<notin> set l \<Longrightarrow> treatment_name (strip l) = Inl IndexError"
  using set_strip [of l] by (intro treatment_name_no_colon) blast

lemma add_block_Inl: "add_block lines s d = Inl e \<Longrightarrow> e = IndexError"
  by (auto simp: add_block_def split: option.splits sum.splits dest: treatment_name_Inl)

lemma foldE_add_block_Inl:
  "foldE (add_block lines) ss d = Inl e \<Longrightarrow> e = IndexError"
proof (induction ss arbitrary: d)
  case Nil
  then show ?case by simp
next
  case (Cons s ss)
  show ?case
  proof (cases "add_block lines s d")
    case (Inl e')
    with Cons.prems have "e' = e" by simp
    with Inl show ?thesis by (auto dest: add_block_Inl)
  next
    case (Inr d1)
    with Cons.prems have "foldE (add_block lines) ss d1 = Inl e" by simp
    then show ?thesis by (rule Cons.IH)
  qed
qed

lemma simulations_lines_Inl: "simulations_lines lines = Inl e \<Longrightarrow> e = IndexError"
  unfolding simulations_lines_foldE by (rule foldE_add_block_Inl)

lemma simulations_lines_returns_iff:
  "(\<exists>d. simulations_lines lines = Inr d)
      \<longleftrightarrow> (\<forall>s r. s < length lines \<and> is_dssat lines s \<and> block_treatment lines s = Some r
             \<longrightarrow> (\<exists>name. treatment_name (strip (lines ! r)) = Inr name))"
  unfolding simulations_lines_foldE foldE_add_block_ok
  by (auto simp: set_dssat_lines)

lemma simulations_lines_no_colon:
  assumes "s < length lines" and "is_dssat lines s" and "block_treatment lines s = Some r"
    and "CHR '':'' \<notin> set (lines ! r)"
  shows "simulations_lines lines = Inl IndexError"
proof (cases "simulations_lines lines")
  case (Inl e)
  with simulations_lines_Inl [OF Inl] show ?thesis by simp
next
  case (Inr d)
  then have "\<exists>d. simulations_lines lines = Inr d" by blast
  with assms(1-3) have "\<exists>name. treatment_name (strip (lines ! r)) = Inr name"
    unfolding simulations_lines_returns_iff by blast
  with treatment_name_no_colon_strip [OF assms(4)] show ?thesis by simp
qed

lemma simulations_lines_named_entries:
  assumes d: "simulations_lines lines = Inr d"
  shows "distinct (map fst d)"
    and "(name, (s, e)) \<in> set d
                 \<longleftrightarrow> (s < length lines \<and> is_dssat lines s \<and> e = block_end lines s
                      \<and> named_block lines s name
                      \<and> (\<forall>s'. s < s' \<and> s' < length lines \<and> is_dssat lines s'
                             \<longrightarrow> \<not> named_block lines s' name))"
proof -
  from d have f: "foldE (add_block lines) (dssat_lines lines) [] = Inr d"
    by (simp add: simulations_lines_foldE)
  from foldE_add_block_distinct [OF f] show dist: "distinct (map fst d)" by simp
  let ?P = "\<lambda>s. named_block lines s name"
  let ?ns = "filter ?P (dssat_lines lines)"
  have m: "map_of d name
      = (case ?ns of [] \<Rightarrow> None | x # xs \<Rightarrow> Some (last (x # xs), block_end lines (last (x # xs))))"
    using foldE_add_block_map_of [OF f, of name] by (cases ?ns) simp_all
  have "(name, (s, e)) \<in> set d \<longleftrightarrow> map_of d name = Some (s, e)"
    using dist by simp
  also have "\<dots> \<longleftrightarrow> (?ns \<noteq> [] \<and> last ?ns = s) \<and> e = block_end lines s"
    unfolding m by (cases ?ns) auto
  also have "\<dots> \<longleftrightarrow> (s \<in> set (dssat_lines lines) \<and> ?P s
        \<and> (\<forall>s'\<in>set (dssat_lines lines). s < s' \<longrightarrow> \<not> ?P s')) \<and> e = block_end lines s"
    by (simp only: last_filter_iff [OF sorted_dssat_lines])
  also have "\<dots> \<longleftrightarrow> (s < length lines \<and> is_dssat lines s \<and> e = block_end lines s
                      \<and> named_block lines s name
                      \<and> (\<forall>s'. s < s' \<and> s' < length lines \<and> is_dssat lines s'
                             \<longrightarrow> \<not> named_block lines s' name))"
    by (auto simp: set_dssat_lines)
  finally show "(name, (s, e)) \<in> set d
                 \<longleftrightarrow> (s < length lines \<and> is_dssat lines s \<and> e = block_end lines s
                      \<and> named_block lines s name
                      \<and> (\<forall>s'. s < s' \<and> s' < length lines \<and> is_dssat lines s'
                             \<longrightarrow> \<not> named_block lines s' name))" .
qed

lemma named_block_treatment: "named_block lines s name \<Longrightarrow> block_treatment lines s \<noteq> None"
  by (auto simp: named_block_def split: option.splits)

lemma named_block_name:
  assumes "\<forall>r. block_treatment lines s = Some r \<longrightarrow> treatment_line_ok (lines ! r)"
  shows "named_block lines s name \<longleftrightarrow> block_name lines s = Some name"
proof (cases "block_treatment lines s")
  case None
  then show ?thesis by (simp add: named_block_def block_name_def)
next
  case (Some r)
  with assms have "treatment_line_ok (lines ! r)" by simp
  then have "treatment_name (strip (lines ! r)) = Inr (name_after_colon (lines ! r))"
    by (rule treatment_name_ok)
  with Some show ?thesis by (auto simp: named_block_def block_name_def)
qed

lemma treatment_lines_ok_list:
  assumes "list_all (\<lambda>s. is_dssat lines s \<longrightarrow>
                (case block_treatment lines s of None \<Rightarrow> True
                 | Some r \<Rightarrow> treatment_line_ok (lines ! r))) [0..<length lines]"
  shows "\<forall>s r. s < length lines \<and> is_dssat lines s \<and> block_treatment lines s = Some r
              \<longrightarrow> treatment_line_ok (lines ! r)"
  using assms by (auto simp: list_all_iff split: option.splits)

text \<open>
  Claim C1. Once the file is read into \<open>lines\<close>:

  \<^item> the only exception \<open>simulations_lines\<close> raises is \<open>IndexError\<close>;
  \<^item> if the first \<open>TREATMENT\<close> line of some \<open>*DSSAT\<close> block has no colon, the call raises
    \<open>IndexError\<close> and returns no dictionary;
  \<^item> whenever a dictionary is returned, its keys are distinct and every entry maps its
    key to a pair \<open>(start, end)\<close> where \<open>start\<close> is the index of a line containing
    \<open>*DSSAT\<close>, \<open>end\<close> is the index of the line before the next \<open>*DSSAT\<close> line, or
    the number of lines for the final block, and the range \<open>[start, end]\<close> contains a
    \<open>TREATMENT\<close> line: a block without one produces no entry;
  \<^item> if the first \<open>TREATMENT\<close> line of every block has exactly one colon, followed by a
    name and a trailing token, then a dictionary is returned, and its entries are exactly
    the pairs of a treatment name (the text of the block's first \<open>TREATMENT\<close> line after
    the colon, with the trailing token removed) and the \<open>(start, end)\<close> of the last block
    with that name.
\<close>

theorem simulations_lines_entries:
  "(\<forall>e. simulations_lines lines = Inl e \<longrightarrow> e = IndexError)
   \<and> ((\<exists>s r. s < length lines \<and> is_dssat lines s \<and> block_treatment lines s = Some r
              \<and> CHR '':'' \<notin> set (lines ! r))
        \<longrightarrow> simulations_lines lines = Inl IndexError)
   \<and> (\<forall>d. simulations_lines lines = Inr d
        \<longrightarrow> distinct (map fst d)
            \<and> (\<forall>name s e. (name, (s, e)) \<in> set d
                 \<longrightarrow> s < length lines \<and> is_dssat lines s \<and> e = block_end lines s
                     \<and> block_treatment lines s \<noteq> None))
   \<and> ((\<forall>s r. s < length lines \<and> is_dssat lines s \<and> block_treatment lines s = Some r
              \<longrightarrow> treatment_line_ok (lines ! r))
        \<longrightarrow> (\<exists>d. simulations_lines lines = Inr d
              \<and> (\<forall>name s e. (name, (s, e)) \<in> set d
                   \<longleftrightarrow> (s < length lines \<and> is_dssat lines s \<and> e = block_end lines s
                        \<and> block_name lines s = Some name
                        \<and> (\<forall>s'. s < s' \<and> s' < length lines \<and> is_dssat lines s'
                               \<longrightarrow> block_name lines s' \<noteq> Some name)))))"
proof (intro conjI)
  show "\<forall>e. simulations_lines lines = Inl e \<longrightarrow> e = IndexError"
    by (blast dest: simulations_lines_Inl)
next
  show "(\<exists>s r. s < length lines \<and> is_dssat lines s \<and> block_treatment lines s = Some r
              \<and> CHR '':'' \<notin> set (lines ! r))
        \<longrightarrow> simulations_lines lines = Inl IndexError"
    by (blast intro: simulations_lines_no_colon)
next
  show "\<forall>d. simulations_lines lines = Inr d
        \<longrightarrow> distinct (map fst d)
            \<and> (\<forall>name s e. (name, (s, e)) \<in> set d
                 \<longrightarrow> s < length lines \<and> is_dssat lines s \<and> e = block_end lines s
                     \<and> block_treatment lines s \<noteq> None)"
  proof (intro allI impI conjI)
    fix d assume d: "simulations_lines lines = Inr d"
    from simulations_lines_named_entries(1) [OF d] show "distinct (map fst d)" .
    fix name s e
    assume "(name, (s, e)) \<in> set d"
    then have *: "s < length lines \<and> is_dssat lines s \<and> e = block_end lines s
                      \<and> named_block lines s name"
      unfolding simulations_lines_named_entries(2) [OF d] by blast
    from * show "s < length lines" by blast
    from * show "is_dssat lines s" by blast
    from * show "e = block_end lines s" by blast
    from * show "block_treatment lines s \<noteq> None" by (blast dest: named_block_treatment)
  qed
next
  show "(\<forall>s r. s < length lines \<and> is_dssat lines s \<and> block_treatment lines s = Some r
              \<longrightarrow> treatment_line_ok (lines ! r))
        \<longrightarrow> (\<exists>d. simulations_lines lines = Inr d
              \<and> (\<forall>name s e. (name, (s, e)) \<in> set d
                   \<longleftrightarrow> (s < length lines \<and> is_dssat lines s \<and> e = block_end lines s
                        \<and> block_name lines s = Some name
                        \<and> (\<forall>s'. s < s' \<and> s' < length lines \<and> is_dssat lines s'
                               \<longrightarrow> block_name lines s' \<noteq> Some name))))"
  proof
    assume ok: "\<forall>s r. s < length lines \<and> is_dssat lines s \<and> block_treatment lines s = Some r
              \<longrightarrow> treatment_line_ok (lines ! r)"
    have nb: "named_block lines s name \<longleftrightarrow> block_name lines s = Some name"
      if "s < length lines" "is_dssat lines s" for s name
      using ok that by (intro named_block_name) blast
    have "\<forall>s r. s < length lines \<and> is_dssat lines s \<and> block_treatment lines s = Some r
             \<longrightarrow> (\<exists>name. treatment_name (strip (lines ! r)) = Inr name)"
      using ok treatment_name_ok by blast
    then obtain d where d: "simulations_lines lines = Inr d"
      unfolding simulations_lines_returns_iff [symmetric] by blast
    have "(name, (s, e)) \<in> set d
                   \<longleftrightarrow> (s < length lines \<and> is_dssat lines s \<and> e = block_end lines s
                        \<and> block_name lines s = Some name
                        \<and> (\<forall>s'. s < s' \<and> s' < length lines \<and> is_dssat lines s'
                               \<longrightarrow> block_name lines s' \<noteq> Some name))" for name s e
      unfolding simulations_lines_named_entries(2) [OF d]
      using nb by blast
    with d show "\<exists>d. simulations_lines lines = Inr d
              \<and> (\<forall>name s e. (name, (s, e)) \<in> set d
                   \<longleftrightarrow> (s < length lines \<and> is_dssat lines s \<and> e = block_end lines s
                        \<and> block_name lines s = Some name
                        \<and> (\<forall>s'. s < s' \<and> s' < length lines \<and> is_dssat lines s'
                               \<longrightarrow> block_name lines s' \<noteq> Some name)))"
      by blast
  qed
qed

text \<open>
  The theorem at \<open>overview_example\<close>: every first \<open>TREATMENT\<close> line has the expected
  shape, the two named blocks are the entries, and the block that starts at line 3, which
  has no \<open>TREATMENT\<close> line, has none.
\<close>

theorem simulations_lines_entries_witness:
  "simulations_lines overview_example = Inr [(''WW-23_YR'', 0, 2), (''DR-23_YR'', 5, 7)]
   \<and> is_dssat overview_example 5 \<and> block_end overview_example 5 = 7
   \<and> block_name overview_example 5 = Some ''DR-23_YR''
   \<and> is_dssat overview_example 3 \<and> block_treatment overview_example 3 = None"
proof -
  have "list_all (\<lambda>s. is_dssat overview_example s \<longrightarrow>
                (case block_treatment overview_example s of None \<Rightarrow> True
                 | Some r \<Rightarrow> treatment_line_ok (overview_example ! r)))
          [0..<length overview_example]"
    by code_simp
  then have ok: "\<forall>s r. s < length overview_example \<and> is_dssat overview_example s
                  \<and> block_treatment overview_example s = Some r
              \<longrightarrow> treatment_line_ok (overview_example ! r)"
    by (rule treatment_lines_ok_list)
  have r: "simulations_lines overview_example = Inr [(''WW-23_YR'', 0, 2), (''DR-23_YR'', 5, 7)]"
    by code_simp
  from simulations_lines_entries [of overview_example, THEN conjunct2, THEN conjunct2,
      THEN conjunct2, THEN mp, OF ok]
  obtain d where d: "simulations_lines overview_example = Inr d"
    and entries: "\<forall>name s e. (name, (s, e)) \<in> set d
                   \<longleftrightarrow> (s < length overview_example \<and> is_dssat overview_example s
                        \<and> e = block_end overview_example s
                        \<and> block_name overview_example s = Some name
                        \<and> (\<forall>s'. s < s' \<and> s' < length overview_example
                                \<and> is_dssat overview_example s'
                               \<longrightarrow> block_name overview_example s' \<noteq> Some name))"
    by blast
  from d r have dv: "d = [(''WW-23_YR'', 0, 2), (''DR-23_YR'', 5, 7)]" by simp
  have m: "(''DR-23_YR'', (5, 7)) \<in> set d" unfolding dv by simp
  note blocks = entries [THEN spec [where x = "''DR-23_YR''"],
      THEN spec [where x = 5], THEN spec [where x = 7], THEN iffD1, OF m]
  from blocks have i: "is_dssat overview_example 5" by (elim conjE)
  from blocks have e: "7 = block_end overview_example 5" by (elim conjE)
  from blocks have n: "block_name overview_example 5 = Some ''DR-23_YR''" by (elim conjE)
  have "is_dssat overview_example 3 \<and> block_treatment overview_example 3 = None" by code_simp
  with r i e n show ?thesis by simp
qed

text \<open>
  A file on which \<open>simulations_lines\<close> returns no dictionary: the only line that starts
  with \<open>TREATMENT\<close> has no colon, so \<open>split(':')[1]\<close> raises \<open>IndexError\<close>.
\<close>

theorem simulations_lines_no_colon_counterexample:
  "simulations_lines [''*DSSAT Cropping System Model\<newline>'', '' TREATMENTS\<newline>''] = Inl IndexError"
  by code_simp

section \<open>Properties of \<open>extract_simulation_data\<close>\<close>

lemma foldE_append:
  "foldE f (xs @ ys) s = (case foldE f xs s of Inl e \<Rightarrow> Inl e | Inr s' \<Rightarrow> foldE f ys s')"
  by (induction xs arbitrary: s) (auto split: sum.splits)

lemma foldE_invariant:
  assumes "foldE f xs s0 = Inr s'" and "P s0"
    and "\<And>x a b. x \<in> set xs \<Longrightarrow> P a \<Longrightarrow> f x a = Inr b \<Longrightarrow> P b"
  shows "P s'"
  using assms
proof (induction xs arbitrary: s0)
  case Nil
  then show ?case by simp
next
  case (Cons x xs)
  from Cons.prems(1) obtain s1 where 1: "f x s0 = Inr s1" and 2: "foldE f xs s1 = Inr s'"
    by (auto split: sum.splits)
  have "P s1" using Cons.prems(3) [of x s0 s1] Cons.prems(2) 1 by simp
  show ?case
  proof (rule Cons.IH [OF 2 \<open>P s1\<close>])
    fix y a b
    assume "y \<in> set xs" "P a" "f y a = Inr b"
    then show "P b" using Cons.prems(3) [of y a b] by simp
  qed
qed

lemma foldE_upt_invariant:
  assumes "foldE f [s..<e] st0 = Inr st" and "s \<le> e" and "I s st0"
    and "\<And>i a b. s \<le> i \<Longrightarrow> i < e \<Longrightarrow> I i a \<Longrightarrow> f i a = Inr b \<Longrightarrow> I (Suc i) b"
  shows "I e st"
  using assms
proof (induction e arbitrary: st)
  case 0
  then show ?case by simp
next
  case (Suc e)
  show ?case
  proof (cases "s = Suc e")
    case True
    with Suc.prems show ?thesis by simp
  next
    case False
    with Suc.prems(2) have le: "s \<le> e" by simp
    then have up: "[s..<Suc e] = [s..<e] @ [e]" by simp
    from Suc.prems(1) obtain a where a: "foldE f [s..<e] st0 = Inr a" and b: "f e a = Inr st"
      unfolding up foldE_append by (auto split: sum.splits)
    have "I e a"
      using Suc.IH [OF a le Suc.prems(3)] Suc.prems(4) by simp
    with b show ?thesis
      using Suc.prems(4) [of e a st] le by simp
  qed
qed

lemma split_str_aux_nonempty: "split_str_aux sep k acc cs \<noteq> []"
  by (induction cs arbitrary: k acc) auto

lemma split_str_aux_contains:
  "contains cs sep \<Longrightarrow> sep \<noteq> [] \<Longrightarrow> 1 < length (split_str_aux sep 0 acc cs)"
proof (induction cs arbitrary: acc)
  case Nil
  then show ?case by simp
next
  case (Cons c cs)
  show ?case
  proof (cases "startswith (c # cs) sep")
    case True
    have "split_str_aux sep (length sep - 1) [] cs \<noteq> []"
      by (rule split_str_aux_nonempty)
    then have "0 < length (split_str_aux sep (length sep - 1) [] cs)" by simp
    with True show ?thesis by simp
  next
    case False
    with Cons.prems have "contains cs sep" by simp
    from Cons.IH [OF this Cons.prems(2)] False show ?thesis by simp
  qed
qed

lemma cultivar_of_crop_line: "is_crop_line l \<Longrightarrow> \<exists>c. cultivar_of l = Some c"
proof -
  assume "is_crop_line l"
  then have "contains l ''CULTIVAR :''" by (simp add: is_crop_line_def)
  then have "1 < length (split_str l ''CULTIVAR :'')"
    unfolding split_str_def by (rule split_str_aux_contains) simp
  then show ?thesis
    by (simp add: cultivar_of_def Let_def split: list.splits)
qed

lemma last_snoc_case:
  "(case xs @ [n] of [] \<Rightarrow> None | j # js \<Rightarrow> Some (last (j # js))) = Some n"
  by (cases xs) simp_all

lemma last_before_Suc:
  "s \<le> n \<Longrightarrow> last_before P lines s (Suc n)
     = (if P (strip (lines ! n)) then Some n else last_before P lines s n)"
  by (simp add: last_before_def last_snoc_case)

lemma last_before_empty: "last_before P lines s s = None"
  by (simp add: last_before_def)

lemma data_rows_origin:
  "data_rows tr cv ex n ls = Inr rs \<Longrightarrow> r \<in> set rs
   \<Longrightarrow> \<exists>m c. m < length ls \<and> cv = Some c \<and> 2 \<le> length (split_ws (strip (ls ! m)))
            \<and> r = mk_row tr c ex (n + m + 1) (split_ws (strip (ls ! m)))"
proof (induction ls arbitrary: n rs)
  case Nil
  then show ?case by simp
next
  case (Cons l ls)
  show ?case
  proof (cases "strip l = [] \<or> startswith l ''*''")
    case True
    with Cons.prems show ?thesis by simp
  next
    case False
    let ?toks = "split_ws (strip l)"
    from Cons.prems(1) False have len: "2 \<le> length ?toks"
      by (simp add: Let_def split: if_splits)
    from Cons.prems(1) False len obtain c where c: "cv = Some c"
      by (cases cv) (simp_all add: Let_def)
    from Cons.prems(1) False len c obtain rs' where
      rs': "data_rows tr cv ex (Suc n) ls = Inr rs'" and
      rs: "rs = mk_row tr c ex (Suc n) ?toks # rs'"
      by (auto simp: Let_def split: sum.splits)
    show ?thesis
    proof (cases "r = mk_row tr c ex (Suc n) ?toks")
      case True
      with len c show ?thesis
        by (intro exI [of _ 0] exI [of _ c]) simp
    next
      case False
      with rs Cons.prems(2) have "r \<in> set rs'" by simp
      from Cons.IH [OF rs' this] obtain m c' where
        "m < length ls" "cv = Some c'" "2 \<le> length (split_ws (strip (ls ! m)))"
        "r = mk_row tr c' ex (Suc n + m + 1) (split_ws (strip (ls ! m)))"
        by blast
      then show ?thesis
        by (intro exI [of _ "Suc m"] exI [of _ c']) simp
    qed
  qed
qed

lemma scan_line_Inr:
  assumes "scan_line lines tr i a = Inr b"
  shows "i < length lines"
    and "experiment_info b
         = (if startswith (strip (lines ! i)) ''EXPERIMENT''
            then (case experiment_description (strip (lines ! i)) of
                    Inl e \<Rightarrow> None | Inr d \<Rightarrow> Some d)
            else experiment_info a)"
    and "cultivar_var b
         = (if is_crop_line (strip (lines ! i)) then cultivar_of (strip (lines ! i))
            else cultivar_var a)"
    and "startswith (strip (lines ! i)) ''@''
         \<Longrightarrow> \<exists>rs. data_rows tr (cultivar_var b) (experiment_info b) 0 (drop (Suc i) lines) = Inr rs
                \<and> cultivar_data b = cultivar_data a @ rs
                \<and> all_data b = all_data a @ cultivar_data a @ rs"
    and "\<not> startswith (strip (lines ! i)) ''@''
         \<Longrightarrow> cultivar_data b = cultivar_data a \<and> all_data b = all_data a"
proof -
  define L where "L = strip (lines ! i)"
  define exr where "exr = (if startswith L ''EXPERIMENT''
                    then (case experiment_description L of
                            Inl e \<Rightarrow> Inl e
                          | Inr d \<Rightarrow> Inr (Some d))
                    else Inr (experiment_info a))"
  define cv where "cv = (if is_crop_line L
                             then (case cultivar_of L of
                                     None \<Rightarrow> cultivar_var a
                                   | Some c \<Rightarrow> Some c)
                             else cultivar_var a)"
  from assms show lt: "i < length lines"
    by (cases "i < length lines") (simp_all add: scan_line_def getitem_def)
  then have eq: "scan_line lines tr i a =
      (case exr of
         Inl e \<Rightarrow> Inl e
       | Inr ex \<Rightarrow>
           if startswith L ''@''
           then (case data_rows tr cv ex 0 (drop (Suc i) lines) of
                   Inl e \<Rightarrow> Inl e
                 | Inr rs \<Rightarrow>
                     Inr (a\<lparr>experiment_info := ex, cultivar_var := cv,
                             cultivar_data := cultivar_data a @ rs,
                             all_data := all_data a @ (cultivar_data a @ rs),
                             header_line := Some L\<rparr>))
           else Inr (a\<lparr>experiment_info := ex, cultivar_var := cv\<rparr>))"
    unfolding scan_line_def getitem_def L_def exr_def cv_def Let_def by simp
  from assms eq obtain ex where ex: "exr = Inr ex"
    by (cases exr) simp_all
  have cv_eq: "cv = (if is_crop_line L then cultivar_of L else cultivar_var a)"
    using cultivar_of_crop_line [of L] by (auto simp: cv_def)
  have ex_eq: "ex = (if startswith L ''EXPERIMENT''
            then (case experiment_description L of Inl e \<Rightarrow> None | Inr d \<Rightarrow> Some d)
            else experiment_info a)"
    using ex by (auto simp: exr_def split: if_splits sum.splits)
  show "experiment_info b
         = (if startswith (strip (lines ! i)) ''EXPERIMENT''
            then (case experiment_description (strip (lines ! i)) of
                    Inl e \<Rightarrow> None | Inr d \<Rightarrow> Some d)
            else experiment_info a)"
  proof (cases "startswith L ''@''")
    case True
    with assms eq ex obtain rs where "b = a\<lparr>experiment_info := ex, cultivar_var := cv,
                             cultivar_data := cultivar_data a @ rs,
                             all_data := all_data a @ (cultivar_data a @ rs),
                             header_line := Some L\<rparr>"
      by (auto split: sum.splits)
    then show ?thesis using ex_eq by (simp add: L_def)
  next
    case False
    with assms eq ex have "b = a\<lparr>experiment_info := ex, cultivar_var := cv\<rparr>" by simp
    then show ?thesis using ex_eq by (simp add: L_def)
  qed
  show "cultivar_var b
         = (if is_crop_line (strip (lines ! i)) then cultivar_of (strip (lines ! i))
            else cultivar_var a)"
  proof (cases "startswith L ''@''")
    case True
    with assms eq ex obtain rs where "b = a\<lparr>experiment_info := ex, cultivar_var := cv,
                             cultivar_data := cultivar_data a @ rs,
                             all_data := all_data a @ (cultivar_data a @ rs),
                             header_line := Some L\<rparr>"
      by (auto split: sum.splits)
    then show ?thesis using cv_eq by (simp add: L_def)
  next
    case False
    with assms eq ex have "b = a\<lparr>experiment_info := ex, cultivar_var := cv\<rparr>" by simp
    then show ?thesis using cv_eq by (simp add: L_def)
  qed
  show "\<exists>rs. data_rows tr (cultivar_var b) (experiment_info b) 0 (drop (Suc i) lines) = Inr rs
                \<and> cultivar_data b = cultivar_data a @ rs
                \<and> all_data b = all_data a @ cultivar_data a @ rs"
    if "startswith (strip (lines ! i)) ''@''"
  proof -
    from that have "startswith L ''@''" by (simp add: L_def)
    with assms eq ex obtain rs where rs: "data_rows tr cv ex 0 (drop (Suc i) lines) = Inr rs"
      and b: "b = a\<lparr>experiment_info := ex, cultivar_var := cv,
                             cultivar_data := cultivar_data a @ rs,
                             all_data := all_data a @ (cultivar_data a @ rs),
                             header_line := Some L\<rparr>"
      by (auto split: sum.splits)
    then show ?thesis by simp
  qed
  show "cultivar_data b = cultivar_data a \<and> all_data b = all_data a"
    if "\<not> startswith (strip (lines ! i)) ''@''"
  proof -
    from that have "\<not> startswith L ''@''" by (simp add: L_def)
    with assms eq ex have "b = a\<lparr>experiment_info := ex, cultivar_var := cv\<rparr>" by simp
    then show ?thesis by simp
  qed
qed

lemma experiment_before_Suc:
  "s \<le> n \<Longrightarrow> experiment_before lines s (Suc n)
     = (if startswith (strip (lines ! n)) ''EXPERIMENT''
        then (case experiment_description (strip (lines ! n)) of
                Inl e \<Rightarrow> None | Inr d \<Rightarrow> Some d)
        else experiment_before lines s n)"
  by (simp add: experiment_before_def last_before_Suc)

lemma scan_block_origin:
  assumes run: "scan_block lines (tr, s, e) st = Inr st'"
    and entry: "(tr, (s, e)) \<in> set d"
    and before: "\<forall>r\<in>set (all_data st). row_origin lines d r"
  shows "\<forall>r\<in>set (all_data st'). row_origin lines d r"
proof (cases "s \<le> e")
  case False
  with run have "st' = st\<lparr>cultivar_data := [], experiment_info := None\<rparr>"
    by (simp add: scan_block_def)
  with before show ?thesis by simp
next
  case True
  define cv0 where "cv0 = cultivar_var st"
  define J :: "nat \<Rightarrow> scan_state \<Rightarrow> bool" where "J = (\<lambda>i a.
      experiment_info a = experiment_before lines s i
      \<and> cultivar_var a = (case last_before is_crop_line lines s i of
                            None \<Rightarrow> cv0
                          | Some j \<Rightarrow> cultivar_of (strip (lines ! j)))
      \<and> (\<forall>r\<in>set (cultivar_data a). row_origin lines d r)
      \<and> (\<forall>r\<in>set (all_data a). row_origin lines d r))"
  from run have f: "foldE (scan_line lines tr) [s..<e]
      (st\<lparr>cultivar_data := [], experiment_info := None\<rparr>) = Inr st'"
    by (simp add: scan_block_def)
  have "J e st'"
  proof (rule foldE_upt_invariant [OF f True])
    show "J s (st\<lparr>cultivar_data := [], experiment_info := None\<rparr>)"
      using before
      by (simp add: J_def experiment_before_def last_before_empty cv0_def)
  next
    fix i a b
    assume si: "s \<le> i" and ie: "i < e" and J: "J i a"
      and step: "scan_line lines tr i a = Inr b"
    note sl = scan_line_Inr [OF step]
    have exb: "experiment_info b = experiment_before lines s (Suc i)"
      using sl(2) J by (simp add: experiment_before_Suc [OF si] J_def)
    have cvb: "cultivar_var b = (case last_before is_crop_line lines s (Suc i) of
                            None \<Rightarrow> cv0
                          | Some j \<Rightarrow> cultivar_of (strip (lines ! j)))"
      using sl(3) J by (simp add: last_before_Suc [OF si] J_def)
    have rows: "(\<forall>r\<in>set (cultivar_data b). row_origin lines d r)
        \<and> (\<forall>r\<in>set (all_data b). row_origin lines d r)"
    proof (cases "startswith (strip (lines ! i)) ''@''")
      case False
      from sl(5) [OF False] J show ?thesis by (simp add: J_def)
    next
      case True
      from sl(4) [OF True] obtain rs where
        rs: "data_rows tr (cultivar_var b) (experiment_info b) 0 (drop (Suc i) lines) = Inr rs"
        and cd: "cultivar_data b = cultivar_data a @ rs"
        and ad: "all_data b = all_data a @ cultivar_data a @ rs"
        by blast
      have new: "row_origin lines d r" if "r \<in> set rs" for r
      proof -
        from data_rows_origin [OF rs that] obtain m c where
          m: "m < length (drop (Suc i) lines)" and c: "cultivar_var b = Some c"
          and len: "2 \<le> length (split_ws (strip (drop (Suc i) lines ! m)))"
          and r: "r = mk_row tr c (experiment_info b) (0 + m + 1)
                    (split_ws (strip (drop (Suc i) lines ! m)))"
          by blast
        from m have im: "i + (m + 1) < length lines" by simp
        then have nth: "drop (Suc i) lines ! m = lines ! (i + (m + 1))" by simp
        have crop: "\<forall>j. last_before is_crop_line lines s (Suc i) = Some j
               \<longrightarrow> cultivar_of (strip (lines ! j)) = Some c"
          using cvb c by simp
        show ?thesis
          unfolding row_origin_def
          apply (rule exI [of _ tr], rule exI [of _ s], rule exI [of _ e], rule exI [of _ i],
              rule exI [of _ "m + 1"], rule exI [of _ c])
          using entry si ie sl(1) True im len r crop
          by (simp add: nth exb)
      qed
      from J have "\<forall>r\<in>set (cultivar_data a). row_origin lines d r"
        and "\<forall>r\<in>set (all_data a). row_origin lines d r"
        by (simp_all add: J_def)
      with new cd ad show ?thesis by auto
    qed
    from exb cvb rows show "J (Suc i) b" by (simp add: J_def)
  qed
  then show ?thesis by (simp add: J_def)
qed

lemma scan_all_origin:
  assumes "foldE (scan_block lines) d initial_scan_state = Inr st"
  shows "\<forall>r\<in>set (all_data st). row_origin lines d r"
proof (rule foldE_invariant [OF assms, where P = "\<lambda>a. \<forall>r\<in>set (all_data a). row_origin lines d r"])
  show "\<forall>r\<in>set (all_data initial_scan_state). row_origin lines d r"
    by (simp add: initial_scan_state_def)
next
  fix x a b
  assume x: "x \<in> set d" and a: "\<forall>r\<in>set (all_data a). row_origin lines d r"
    and b: "scan_block lines x a = Inr b"
  obtain tr s e where xe: "x = (tr, s, e)" by (cases x) auto
  from scan_block_origin [of lines tr s e a b d] x a b xe
  show "\<forall>r\<in>set (all_data b). row_origin lines d r" by simp
qed

lemma numeric_row_fields [simp]:
  "treatment (numeric_row f r) = treatment r"
  "cultivar (numeric_row f r) = cultivar r"
  "variable (numeric_row f r) = variable r"
  "value_simulated (numeric_row f r) = f (value_simulated r)"
  "value_measured (numeric_row f r) = f (value_measured r)"
  "experiment_col (numeric_row f r) = experiment_col r"
  "position (numeric_row f r) = position r"
  by (simp_all add: numeric_row_def)

lemma mk_row_fields [simp]:
  "treatment (mk_row tr c ex k toks) = tr"
  "cultivar (mk_row tr c ex k toks) = c"
  "value_simulated (mk_row tr c ex k toks) = blank_sentinel (toks ! (length toks - 2))"
  "value_measured (mk_row tr c ex k toks) = blank_sentinel (toks ! (length toks - 1))"
  "experiment_col (mk_row tr c ex k toks) = ex"
  "position (mk_row tr c ex k toks) = k"
  by (simp_all add: mk_row_def)

lemma extract_origin:
  assumes "extract_simulation_data to_numeric lines = Inr (df, h)"
  shows "\<exists>d. simulations_lines lines = Inr d
           \<and> (\<forall>x\<in>set df. \<exists>raw. row_origin lines d raw \<and> x = numeric_row to_numeric raw)"
proof -
  from assms obtain d where d: "simulations_lines lines = Inr d"
    by (cases "simulations_lines lines") (simp_all add: extract_simulation_data_def)
  with assms obtain st where st: "foldE (scan_block lines) d initial_scan_state = Inr st"
    by (cases "foldE (scan_block lines) d initial_scan_state")
      (simp_all add: extract_simulation_data_def)
  from assms d st have df:
    "df = map (numeric_row to_numeric) (filter (\<lambda>r. \<not> has_dashes r) (all_data st))"
    by (cases "header_line st") (simp_all add: extract_simulation_data_def)
  have "\<exists>raw. row_origin lines d raw \<and> x = numeric_row to_numeric raw" if "x \<in> set df" for x
  proof -
    from that df obtain raw where "raw \<in> set (all_data st)" "x = numeric_row to_numeric raw"
      by auto
    with scan_all_origin [OF st] show ?thesis by blast
  qed
  with d show ?thesis by blast
qed

text \<open>
  Claim C2 at two files. In \<open>overview_block\<close> the \<open>EXPERIMENT\<close> line is
  \<open>EXPERIMENT : KSAS8101 WH 10:30 TRIAL\<close>: the text after its first colon is
  \<open>KSAS8101 WH 10:30 TRIAL\<close>, the description that the comment of the code announces
  (``Extract the experiment description after the colon''), but both records carry
  \<open>KSAS8101 WH 10\<close>, since \<open>split(':')[1]\<close> ends at the second colon. In
  \<open>overview_two_blocks\<close> the second block, \<open>DR-23_YR\<close>, has no \<open>CROP\<close> line, and its
  record carries the cultivar \<open>Yecora Rojo\<close> of the first block: the variable \<open>cultivar\<close>
  is not reset at the start of a block, as \<open>experiment_info\<close> is.
\<close>

theorem extract_simulation_data_other_text:
  "extract_simulation_data text_or_nan overview_block
     = Inr (overview_block_rows, ''@     VARIABLE        Simulated     Measured'')
   \<and> map experiment_col overview_block_rows
     = [Some ''KSAS8101 WH 10'', Some ''KSAS8101 WH 10'']
   \<and> startswith (strip (overview_block ! 1)) ''EXPERIMENT''
   \<and> after_first_colon (overview_block ! 1) = ''KSAS8101 WH 10:30 TRIAL''
   \<and> extract_simulation_data text_or_nan overview_two_blocks
     = Inr (overview_two_blocks_rows, ''@     VARIABLE        Simulated     Measured'')
   \<and> simulations_lines overview_two_blocks = Inr [(''WW-23_YR'', 0, 6), (''DR-23_YR'', 7, 13)]
   \<and> map (\<lambda>r. (treatment r, cultivar r)) overview_two_blocks_rows
     = [(''WW-23_YR'', ''Yecora Rojo''), (''DR-23_YR'', ''Yecora Rojo'')]
   \<and> filter (\<lambda>i. is_crop_line (strip (overview_two_blocks ! i))) [0..<13] = [3]"
  by code_simp

section \<open>Properties of \<open>load_and_process_overview\<close>\<close>

lemma tag_row_fields [simp]:
  "calibration_code (tag_row code pv ov cm sl ll r) = code"
  "calibration_method (tag_row code pv ov cm sl ll r) = cm"
  "short_label (tag_row code pv ov cm sl ll r) = sl"
  "long_label (tag_row code pv ov cm sl ll r) = ll"
  "same_parsed (tag_row code pv ov cm sl ll r) r"
  by (simp_all add: tag_row_def same_parsed_def)

lemma relabel_fields [simp]:
  "calibration_code (relabel td vm r) = calibration_code r"
  "calibration_method (relabel td vm r) = calibration_method r"
  "short_label (relabel td vm r) = short_label r"
  "long_label (relabel td vm r) = long_label r"
  "same_parsed (relabel td vm r) x = same_parsed r x"
  by (simp_all add: relabel_def same_parsed_def)

lemma from_folder_relabel:
  "from_folder f b tf yf (relabel td vm r) = from_folder f b tf yf r"
  by (simp add: from_folder_def)

lemma load_one_Inr:
  assumes "load_one to_numeric base tf yf code st = Inr st'"
  shows "\<exists>lines raw h loaded config pv ov cm sl ll.
           tf (path_join3 base code ''OVERVIEW.OUT'') = Some lines
           \<and> extract_simulation_data to_numeric lines = Inr (raw, h)
           \<and> yf (path_join3 base code ''config.yaml'') = Some loaded
           \<and> (\<forall>y. loaded = Loaded y \<longrightarrow> config = y)
           \<and> config_field config ''calibration_method'' = Inr cm
           \<and> config_field config ''short_label'' = Inr sl
           \<and> config_field config ''long_label'' = Inr ll
           \<and> list_overview_df st' = list_overview_df st
               @ [map (tag_row code pv ov cm sl ll) (filter (\<lambda>r. value_measured r \<noteq> None) raw)]"
proof -
  let ?out = "path_join3 base code ''OVERVIEW.OUT''"
  let ?yml = "path_join3 base code ''config.yaml''"
  from assms obtain lines where lines: "tf ?out = Some lines"
    by (cases "tf ?out") (auto simp: load_one_def Let_def split: sum.splits)
  from assms lines obtain raw h where ex: "extract_simulation_data to_numeric lines = Inr (raw, h)"
    by (cases "extract_simulation_data to_numeric lines")
      (auto simp: load_one_def Let_def split: sum.splits)
  from assms lines ex obtain loaded where loaded: "yf ?yml = Some loaded"
    by (cases "yf ?yml") (auto simp: load_one_def Let_def split: sum.splits)
  define cfg where "cfg = (case loaded of YAMLError \<Rightarrow> config_file st | Loaded y \<Rightarrow> Some y)"
  from assms lines ex loaded obtain config where config: "cfg = Some config"
    by (cases cfg) (auto simp: load_one_def Let_def cfg_def split: sum.splits)
  have cy: "\<forall>y. loaded = Loaded y \<longrightarrow> config = y"
    using config by (auto simp: cfg_def)
  note facts = assms lines ex loaded config [unfolded cfg_def]
  from facts obtain pv where pv: "config_field config ''plantgro_variables'' = Inr pv"
    by (cases "config_field config ''plantgro_variables''")
      (auto simp: load_one_def Let_def split: sum.splits)
  from facts pv obtain ov where ov: "config_field config ''overview_variables'' = Inr ov"
    by (cases "config_field config ''overview_variables''")
      (auto simp: load_one_def Let_def split: sum.splits)
  from facts pv ov obtain cm where cm: "config_field config ''calibration_method'' = Inr cm"
    by (cases "config_field config ''calibration_method''")
      (auto simp: load_one_def Let_def split: sum.splits)
  from facts pv ov cm obtain sl where sl: "config_field config ''short_label'' = Inr sl"
    by (cases "config_field config ''short_label''")
      (auto simp: load_one_def Let_def split: sum.splits)
  from facts pv ov cm sl obtain ll where ll: "config_field config ''long_label'' = Inr ll"
    by (cases "config_field config ''long_label''")
      (auto simp: load_one_def Let_def split: sum.splits)
  from facts pv ov cm sl ll have "list_overview_df st' = list_overview_df st
               @ [map (tag_row code pv ov cm sl ll) (filter (\<lambda>r. value_measured r \<noteq> None) raw)]"
    by (auto simp: load_one_def Let_def split: sum.splits)
  with lines ex loaded cy cm sl ll show ?thesis by blast
qed

lemma load_one_from_folder:
  assumes step: "load_one to_numeric base tf yf code st = Inr st'"
    and code: "code \<in> set codes"
    and inv: "\<forall>frame\<in>set (list_overview_df st). \<forall>r\<in>set frame.
                calibration_code r \<in> set codes \<and> from_folder to_numeric base tf yf r"
  shows "\<forall>frame\<in>set (list_overview_df st'). \<forall>r\<in>set frame.
                calibration_code r \<in> set codes \<and> from_folder to_numeric base tf yf r"
proof -
  from load_one_Inr [OF step] obtain lines raw h loaded config pv ov cm sl ll where
    lines: "tf (path_join3 base code ''OVERVIEW.OUT'') = Some lines"
    and ex: "extract_simulation_data to_numeric lines = Inr (raw, h)"
    and loaded: "yf (path_join3 base code ''config.yaml'') = Some loaded"
    and cy: "\<forall>y. loaded = Loaded y \<longrightarrow> config = y"
    and cm: "config_field config ''calibration_method'' = Inr cm"
    and sl: "config_field config ''short_label'' = Inr sl"
    and ll: "config_field config ''long_label'' = Inr ll"
    and df: "list_overview_df st' = list_overview_df st
               @ [map (tag_row code pv ov cm sl ll) (filter (\<lambda>r. value_measured r \<noteq> None) raw)]"
    by blast
  have new: "calibration_code r \<in> set codes \<and> from_folder to_numeric base tf yf r"
    if "r \<in> set (map (tag_row code pv ov cm sl ll) (filter (\<lambda>r. value_measured r \<noteq> None) raw))"
    for r
  proof -
    from that obtain x where x: "x \<in> set raw" "value_measured x \<noteq> None"
      and r: "r = tag_row code pv ov cm sl ll x"
      by auto
    have "from_folder to_numeric base tf yf r"
      unfolding from_folder_def r
      using lines ex x loaded cy cm sl ll by auto
    with code r show ?thesis by simp
  qed
  show ?thesis
    unfolding df using inv new by auto
qed

lemma load_and_process_overview_from_folder:
  assumes "load_and_process_overview to_numeric codes base tf yf td vm = Inr df"
  shows "\<forall>r\<in>set df. calibration_code r \<in> set codes \<and> from_folder to_numeric base tf yf r"
proof -
  let ?init = "\<lparr>config_file = None, list_overview_df = []\<rparr> :: 'a option load_state"
  from assms obtain st where st: "foldE (load_one to_numeric base tf yf) codes ?init = Inr st"
    by (cases "foldE (load_one to_numeric base tf yf) codes ?init")
      (simp_all add: load_and_process_overview_def)
  with assms have df: "df = map (relabel td vm) (concat (list_overview_df st))"
    by (simp add: load_and_process_overview_def split: if_splits)
  have "\<forall>frame\<in>set (list_overview_df st). \<forall>r\<in>set frame.
          calibration_code r \<in> set codes \<and> from_folder to_numeric base tf yf r"
  proof (rule foldE_invariant [OF st])
    show "\<forall>frame\<in>set (list_overview_df ?init). \<forall>r\<in>set frame.
          calibration_code r \<in> set codes \<and> from_folder to_numeric base tf yf r"
      by simp
  next
    fix x a b
    assume "x \<in> set codes"
      and "\<forall>frame\<in>set (list_overview_df a). \<forall>r\<in>set frame.
          calibration_code r \<in> set codes \<and> from_folder to_numeric base tf yf r"
      and "load_one to_numeric base tf yf x a = Inr b"
    then show "\<forall>frame\<in>set (list_overview_df b). \<forall>r\<in>set frame.
          calibration_code r \<in> set codes \<and> from_folder to_numeric base tf yf r"
      using load_one_from_folder [of to_numeric base tf yf x a b codes] by blast
  qed
  then show ?thesis
    unfolding df by (auto simp: from_folder_relabel)
qed

lemma str_items_map_YStr: "str_items (map YStr xs) = Inr xs"
  by (induction xs) simp_all

lemma field_text_list: "field_text (Some (YSeq (map YStr xs))) = Inr (join '', '' xs)"
  by (cases xs) (simp_all add: field_text_def str_items_map_YStr)

lemma same_parsedD:
  "same_parsed r x \<Longrightarrow> value_measured r = value_measured x \<and> value_simulated r = value_simulated x"
  by (simp add: same_parsed_def)

text \<open>
  Claim C6 at three folders. \<open>BM-ts\<close> has a configuration with list-valued fields, and
  its record carries their texts. The \<open>config.yaml\<close> of \<open>GR-ts\<close> is malformed, so that
  loading it raises \<open>YAMLError\<close>: the handler prints the error, \<open>config_file\<close> keeps the
  configuration of \<open>BM-ts\<close>, and the record of \<open>GR-ts\<close> carries the short label, the
  long label and the calibration method of \<open>BM-ts\<close>, none of them read from the
  \<open>config.yaml\<close> of its own folder. (In \<open>load_prepare_time_series_data\<close> the same handler
  sets \<open>config_file = {}\<close>.) The \<open>config.yaml\<close> of \<open>YD-ts\<close> gives the short label as
  the plain string \<open>YD\<close>, and its record carries \<open>Y, D\<close>: \<open>', '.join\<close> joins the
  characters of a string.
\<close>

theorem load_and_process_overview_other_labels:
  "load_and_process_overview text_or_nan [''BM-ts'', ''GR-ts'', ''YD-ts''] ''data''
     three_folder_text_files three_folder_yaml_files example_treatments_dic
     example_variable_name_mapping
   = Inr three_folder_rows
   \<and> map (\<lambda>r. (calibration_code r, short_label r, long_label r, calibration_method r))
       three_folder_rows
     = [(''BM-ts'', ''BM'', ''Biomass time series'', ''GLUE, manual''),
        (''GR-ts'', ''BM'', ''Biomass time series'', ''GLUE, manual''),
        (''YD-ts'', ''Y, D'', ''Yield'', ''GLUE'')]
   \<and> three_folder_yaml_files (path_join3 ''data'' ''BM-ts'' ''config.yaml'')
       = Some (Loaded (YMap example_config))
   \<and> three_folder_yaml_files (path_join3 ''data'' ''GR-ts'' ''config.yaml'') = Some YAMLError
   \<and> three_folder_yaml_files (path_join3 ''data'' ''YD-ts'' ''config.yaml'')
       = Some (Loaded (YMap scalar_config))
   \<and> map_of scalar_config (YStr ''short_label'') = Some (YStr ''YD'')"
  by code_simp

text \<open>
  Claim C7. Provided \<open>pd.to_numeric\<close> maps the empty string to \<open>NaN\<close>, every record of
  the frame that \<open>load_and_process_overview\<close> returns has a measured value that is not
  missing: it is the numeric value of the last token of a data line of its folder's
  \<open>OVERVIEW.OUT\<close>, a token that does not start with \<open>-99\<close>; and its simulated value is
  missing when the last token but one of that line starts with \<open>-99\<close>.
\<close>

theorem load_and_process_overview_measured:
  assumes nan: "to_numeric [] = None"
    and run: "load_and_process_overview to_numeric codes base tf yf td vm = Inr df"
  shows "\<forall>r\<in>set df.
           value_measured r \<noteq> None
           \<and> (\<exists>lines n toks.
                 tf (path_join3 base (calibration_code r) ''OVERVIEW.OUT'') = Some lines
                 \<and> n < length lines \<and> toks = split_ws (strip (lines ! n)) \<and> 2 \<le> length toks
                 \<and> \<not> startswith (toks ! (length toks - 1)) ''-99''
                 \<and> value_measured r = to_numeric (toks ! (length toks - 1))
                 \<and> value_simulated r
                     = (if startswith (toks ! (length toks - 2)) ''-99'' then None
                        else to_numeric (toks ! (length toks - 2))))"
proof
  fix r
  assume "r \<in> set df"
  with load_and_process_overview_from_folder [OF run]
  have "from_folder to_numeric base tf yf r" by blast
  then obtain lines raw h x where
    lines: "tf (path_join3 base (calibration_code r) ''OVERVIEW.OUT'') = Some lines"
    and ex: "extract_simulation_data to_numeric lines = Inr (raw, h)"
    and x: "x \<in> set raw" and xm: "value_measured x \<noteq> None" and sp: "same_parsed r x"
    unfolding from_folder_def by blast
  from extract_origin [OF ex] x obtain d orig where
    o: "row_origin lines d orig" and xo: "x = numeric_row to_numeric orig"
    by blast
  from o obtain tr s e i k c where
    n: "i + k < length lines" and len: "2 \<le> length (split_ws (strip (lines ! (i + k))))"
    and orig: "orig = mk_row tr c (experiment_before lines s (Suc i)) k
                  (split_ws (strip (lines ! (i + k))))"
    unfolding row_origin_def by blast
  let ?toks = "split_ws (strip (lines ! (i + k)))"
  have vm: "value_measured x = to_numeric (blank_sentinel (?toks ! (length ?toks - 1)))"
    and vs: "value_simulated x = to_numeric (blank_sentinel (?toks ! (length ?toks - 2)))"
    by (simp_all add: xo orig)
  have ns: "\<not> startswith (?toks ! (length ?toks - 1)) ''-99''"
    using xm vm nan by (auto simp: blank_sentinel_def)
  from same_parsedD [OF sp] have rm: "value_measured r = value_measured x"
    and rs: "value_simulated r = value_simulated x" by simp_all
  have 1: "value_measured r \<noteq> None" using rm xm by simp
  have 2: "value_measured r = to_numeric (?toks ! (length ?toks - 1))"
    using rm vm ns by (simp add: blank_sentinel_def)
  have 3: "value_simulated r
                     = (if startswith (?toks ! (length ?toks - 2)) ''-99'' then None
                        else to_numeric (?toks ! (length ?toks - 2)))"
    using rs vs nan by (simp add: blank_sentinel_def)
  from lines n len ns 1 2 3
  show "value_measured r \<noteq> None
           \<and> (\<exists>lines n toks.
                 tf (path_join3 base (calibration_code r) ''OVERVIEW.OUT'') = Some lines
                 \<and> n < length lines \<and> toks = split_ws (strip (lines ! n)) \<and> 2 \<le> length toks
                 \<and> \<not> startswith (toks ! (length toks - 1)) ''-99''
                 \<and> value_measured r = to_numeric (toks ! (length toks - 1))
                 \<and> value_simulated r
                     = (if startswith (toks ! (length toks - 2)) ''-99'' then None
                        else to_numeric (toks ! (length toks - 2))))"
    by blast
qed

theorem load_and_process_overview_measured_witness:
  "text_or_nan [] = None
   \<and> load_and_process_overview text_or_nan [''BM-ts''] ''data'' example_text_files
       example_yaml_files example_treatments_dic example_variable_name_mapping
     = Inr [example_overview_row]
   \<and> value_measured example_overview_row = Some ''90''
   \<and> map value_measured overview_block_rows = [Some ''90'', None]"
proof -
  have nan: "text_or_nan [] = None" by (simp add: text_or_nan_def)
  have run: "load_and_process_overview text_or_nan [''BM-ts''] ''data'' example_text_files
     example_yaml_files example_treatments_dic example_variable_name_mapping
   = Inr [example_overview_row]"
    by code_simp
  note t = load_and_process_overview_measured [OF nan run, THEN bspec,
      of example_overview_row, simplified list.set, OF insertI1, THEN conjunct1]
  have "value_measured example_overview_row = Some ''90''"
    by (simp add: example_overview_row_def)
  moreover have "map value_measured overview_block_rows = [Some ''90'', None]"
    by (simp add: overview_block_rows_def)
  ultimately show ?thesis using t nan run by simp
qed

section \<open>Properties of the reconciliation of measurements\<close>



















lemma fill_row_fields [simp]:
  "TRNO (fill_row ref (((n, src), m), t) d) = n"
  "DATE (fill_row ref (((n, src), m), t) d) = in_DATE src"
  "experiment_id (fill_row ref (((n, src), m), t) d) = in_experiment_id src"
  "cells (fill_row ref (((n, src), m), t) d) = in_cells src"
  "treatment_number (fill_row ref (((n, src), m), t) d) = map_treatment_number m"
  "sim_id (fill_row ref (((n, src), m), t) d) = map_sim_id m"
  "wht_treatment (fill_row ref (((n, src), m), t) d) = map_treatment m"
  "genotype (fill_row ref (((n, src), m), t) d) = map_genotype m"
  "DAS (fill_row ref (((n, src), m), t) d) = map_option pg_DAS t"
  "DAP (fill_row ref (((n, src), m), t) d)
     = (case t of Some p \<Rightarrow> Some (pg_DAP p)
        | None \<Rightarrow> (case ref of None \<Rightarrow> None | Some r \<Rightarrow> Some (d - r)))"
  "DATE_dt (fill_row ref (((n, src), m), t) d) = d"
  by (simp_all add: fill_row_def)





end
